theory Spec2Isabelle
  imports Main "HOL-Library.Sublist"
begin

section \<open>Text helpers of the Python runtime\<close>

text \<open>
  Python strings are modelled as \<open>string\<close>; a character is a code point below 256.
  \<open>py_split sep s\<close> is \<^verbatim>\<open>s.split(sep)\<close> for a non-empty separator: the text is cut
  at the non-overlapping occurrences of \<open>sep\<close> found from left to right. Python raises
  ValueError for an empty separator; the program only splits at a fixed non-empty marker.
\<close>

function py_split :: "string \<Rightarrow> string \<Rightarrow> string list" where
  "py_split sep [] = [[]]"
| "py_split sep (c # cs) =
     (if sep \<noteq> [] \<and> prefix sep (c # cs)
      then [] # py_split sep (drop (length sep) (c # cs))
      else (case py_split sep cs of
              [] \<Rightarrow> [[c]]
            | seg # segs \<Rightarrow> (c # seg) # segs))"
  by pat_completeness auto
termination
  by (relation "measure (\<lambda>(sep, s). length s)") (auto simp: neq_Nil_conv)

definition is_quote :: "char \<Rightarrow> bool" where
  "is_quote c \<longleftrightarrow> c = CHR 0x22 \<or> c = CHR 0x27"

text \<open>
  One attempt of the pattern \<^verbatim>\<open><a href=["\']([^"\']+)["\']\<close> at the start of the text:
  the literal \<^verbatim>\<open><a href=\<close>, a quote, the longest non-empty run of non-quotes, a quote.
  The result is the captured run and the text after the closing quote.
\<close>

definition match_href :: "string \<Rightarrow> (string \<times> string) option" where
  "match_href s =
     (if prefix ''<a href='' s then
        (case drop 8 s of
           [] \<Rightarrow> None
         | q # t \<Rightarrow>
             if is_quote q then
               (let url = takeWhile (\<lambda>c. \<not> is_quote c) t;
                    r = dropWhile (\<lambda>c. \<not> is_quote c) t
                in if url \<noteq> [] \<and> r \<noteq> [] then Some (url, tl r) else None)
             else None)
      else None)"

lemma match_href_shorter: "match_href s = Some (u, r) \<Longrightarrow> length r < length s"
proof -
  assume m: "match_href s = Some (u, r)"
  then obtain q t where d: "drop 8 s = q # t" and
      r: "r = tl (dropWhile (\<lambda>c. \<not> is_quote c) t)"
    by (auto simp: match_href_def Let_def split: if_splits list.splits)
  have "length r \<le> length t"
    unfolding r using length_dropWhile_le [of "\<lambda>c. \<not> is_quote c" t] by simp
  moreover have "length t < length s"
    using arg_cong [OF d, of length] by simp
  ultimately show ?thesis by simp
qed

text \<open>\<^verbatim>\<open>re.findall(url_pattern, s)\<close>: the captures of the non-overlapping matches, left to right.\<close>

function findall_href :: "string \<Rightarrow> string list" where
  "findall_href [] = []"
| "findall_href (c # cs) =
     (case match_href (c # cs) of
        Some (url, rest) \<Rightarrow> url # findall_href rest
      | None \<Rightarrow> findall_href cs)"
  by pat_completeness auto
termination
  by (relation "measure length") (auto dest: match_href_shorter)

section \<open>URL extractor\<close>

definition marker :: string where
  "marker = ''Relevant URLs:''"

text \<open>
  \<^verbatim>\<open>list(set(urls))\<close> keeps one copy of every captured string. The iteration order of a
  Python set is not specified; the model lists each string where it was captured last.
\<close>

definition extract_urls_from_response :: "string \<Rightarrow> string list" where
  "extract_urls_from_response response_text =
     (let split_text = py_split marker response_text in
      if length split_text < 2 then []
      else (let urls_section = split_text ! 1;
                urls = findall_href urls_section
            in remdups urls))"


section \<open>More of the Python runtime\<close>

text \<open>\<^verbatim>\<open>str.isspace\<close>, \<^verbatim>\<open>str.isalnum\<close> and \<^verbatim>\<open>str.lower\<close> on code points below 256.\<close>

definition isspace :: "char \<Rightarrow> bool" where
  "isspace c \<longleftrightarrow> (of_char c :: nat) \<in> set [9, 10, 11, 12, 13, 28, 29, 30, 31, 32, 133, 160]"

definition isalnum :: "char \<Rightarrow> bool" where
  "isalnum c \<longleftrightarrow>
     (let n = (of_char c :: nat) in
        (48 \<le> n \<and> n \<le> 57) \<or> (65 \<le> n \<and> n \<le> 90) \<or> (97 \<le> n \<and> n \<le> 122) \<or>
        n \<in> set [170, 178, 179, 181, 185, 186, 188, 189, 190] \<or>
        (192 \<le> n \<and> n \<le> 255 \<and> n \<noteq> 215 \<and> n \<noteq> 247))"

definition lower_char :: "char \<Rightarrow> char" where
  "lower_char c =
     (let n = (of_char c :: nat) in
        if (65 \<le> n \<and> n \<le> 90) \<or> (192 \<le> n \<and> n \<le> 222 \<and> n \<noteq> 215)
        then char_of (n + 32) else c)"

definition py_lower :: "string \<Rightarrow> string" where
  "py_lower s = map lower_char s"

definition py_strip :: "string \<Rightarrow> string" where
  "py_strip s = rev (dropWhile isspace (rev (dropWhile isspace s)))"

fun py_join :: "string \<Rightarrow> string list \<Rightarrow> string" where
  "py_join sep [] = []"
| "py_join sep [x] = x"
| "py_join sep (x # y # ys) = x @ sep @ py_join sep (y # ys)"

text \<open>\<^verbatim>\<open>str.rfind\<close> for one character: the last index holding it, or -1.\<close>

definition rfind :: "char \<Rightarrow> string \<Rightarrow> int" where
  "rfind c s =
     (case filter (\<lambda>i. s ! i = c) (rev [0..<length s]) of
        [] \<Rightarrow> - 1
      | i # _ \<Rightarrow> int i)"

text \<open>
  The second component of \<^verbatim>\<open>os.path.splitext(p)\<close> (posixpath): the text from the last dot on,
  when that dot comes after the last slash and some character between the two is not a
  dot; the empty string otherwise.
\<close>

definition splitext_ext :: "string \<Rightarrow> string" where
  "splitext_ext p =
     (let sepIndex = rfind CHR ''/'' p;
          dotIndex = rfind CHR ''.'' p
      in if dotIndex > sepIndex \<and>
            list_ex (\<lambda>k. p ! k \<noteq> CHR ''.'') [nat (sepIndex + 1)..<nat dotIndex]
         then drop (nat dotIndex) p else [])"

text \<open>The clock value of \<^verbatim>\<open>datetime.now()\<close> and the two \<^verbatim>\<open>strftime\<close> formats in use.\<close>

record datetime =
  dt_year :: nat
  dt_month :: nat
  dt_day :: nat
  dt_hour :: nat
  dt_minute :: nat
  dt_second :: nat

definition digit :: "nat \<Rightarrow> char" where
  "digit n = ''0123456789'' ! (n mod 10)"

definition pad2 :: "nat \<Rightarrow> string" where
  "pad2 n = [digit (n div 10), digit n]"

definition pad4 :: "nat \<Rightarrow> string" where
  "pad4 n = [digit (n div 1000), digit (n div 100), digit (n div 10), digit n]"

definition strftime_compact :: "datetime \<Rightarrow> string" where
  \<comment> \<open>\<^verbatim>\<open>%Y%m%d_%H%M%S\<close>\<close>
  "strftime_compact t =
     pad4 (dt_year t) @ pad2 (dt_month t) @ pad2 (dt_day t) @ ''_'' @
     pad2 (dt_hour t) @ pad2 (dt_minute t) @ pad2 (dt_second t)"

definition strftime_human :: "datetime \<Rightarrow> string" where
  \<comment> \<open>\<^verbatim>\<open>%Y-%m-%d %H:%M:%S\<close>\<close>
  "strftime_human t =
     pad4 (dt_year t) @ ''-'' @ pad2 (dt_month t) @ ''-'' @ pad2 (dt_day t) @ '' '' @
     pad2 (dt_hour t) @ '':'' @ pad2 (dt_minute t) @ '':'' @ pad2 (dt_second t)"

section \<open>Data model\<close>

text \<open>
  A spreadsheet cell as pandas hands it to the row loop: a missing value (NaN, None, NaT),
  a text, or a non-missing value of another Python type (a number, a boolean, a timestamp),
  of which only the name of the type matters here.
\<close>

datatype cell = Missing | Str string | NonText string

text \<open>
  A label of the row index. After an ordinary read the labels are the positions 0, 1, ...;
  when the reader takes a column of the file as the index (a CSV whose data lines have one
  field more than its header), they are what that column holds. Numeric labels are
  modelled as integers.
\<close>

datatype label = IntLabel int | TextLabel string

text \<open>The dtype of a column: one that holds texts (object, str), or another one, by name.\<close>

datatype dtype = TextDtype | OtherDtype string

text \<open>
  A DataFrame: the ordered column names, the dtype of each column, the index label of each
  row position, and each row as a map from column name to cell.
\<close>

record dataframe =
  columns :: "string list"
  dtypes :: "string \<Rightarrow> dtype"
  labels :: "nat \<Rightarrow> label"
  rows :: "(string \<rightharpoonup> cell) list"

text \<open>JSON values as \<^verbatim>\<open>response.json()\<close> builds them; in an object a later duplicate key wins.\<close>

datatype json =
  JNull | JBool bool | JNum int | JStr string | JArr "json list" | JObj "(string \<times> json) list"

datatype exn =
  RequestException string
| ValueError string
| AttributeError string
| TypeError string
| OSError string
| ReadError string

fun str_of_exn :: "exn \<Rightarrow> string" where
  "str_of_exn (RequestException m) = m"
| "str_of_exn (ValueError m) = m"
| "str_of_exn (AttributeError m) = m"
| "str_of_exn (TypeError m) = m"
| "str_of_exn (OSError m) = m"
| "str_of_exn (ReadError m) = m"

fun is_request_exception :: "exn \<Rightarrow> bool" where
  "is_request_exception (RequestException m) = True"
| "is_request_exception _ = False"

text \<open>What the remote service does with one POST: no response at all, or a status and a body.\<close>

datatype body = NotJson string | Json json

datatype reply = TransportFailure string | Http nat body

type_synonym payload = "string \<times> string \<times> string"

datatype content = Raw string | Sheet string dataframe | JsonText json

text \<open>
  The world a request runs in: the files under the working directory, the POST requests
  sent so far, and the number of clock readings taken so far.
\<close>

record world =
  files :: "string \<rightharpoonup> content"
  calls :: "payload list"
  ticks :: nat

text \<open>
  What the program does not decide itself: whether a path can be opened for writing (the
  message of the error otherwise), what the spreadsheet library parses from the bytes of a
  file, what the remote service answers to the n-th POST, what the clock shows at the n-th
  reading, and whether the installed HTTP library raises its JSON decoding error as a
  \<^verbatim>\<open>RequestException\<close> (it does from release 2.27 on) or as a plain \<^verbatim>\<open>ValueError\<close>.
\<close>

record env =
  open_error :: "string \<Rightarrow> string option"
  read_excel :: "string \<Rightarrow> string + dataframe"
  read_csv :: "string \<Rightarrow> string + dataframe"
  api :: "nat \<Rightarrow> payload \<Rightarrow> reply"
  now :: "nat \<Rightarrow> datetime"
  json_error_is_request_exception :: bool

datatype response = FileResponse string string | ErrorJson string


section \<open>Table operations\<close>

text \<open>
  \<^verbatim>\<open>df[name] = ""\<close> for a name the table does not have: a new last column of empty texts,
  of a text dtype.
\<close>

definition add_column :: "string \<Rightarrow> dataframe \<Rightarrow> dataframe" where
  "add_column name df =
     df\<lparr>columns := columns df @ [name],
        dtypes := (dtypes df)(name := TextDtype),
        rows := map (\<lambda>r. r(name \<mapsto> Str [])) (rows df)\<rparr>"

definition invalid_value :: "string \<Rightarrow> string \<Rightarrow> string" where
  "invalid_value text d =
     ''Invalid value '' @ [CHR 0x27] @ text @ [CHR 0x27] @ '' for dtype '' @
     [CHR 0x27] @ d @ [CHR 0x27]"

text \<open>
  \<^verbatim>\<open>df.at[index, name] = text\<close> for an existing column: the assignment is by index label, so
  every row that carries the label gets the text. A column whose dtype does not hold texts
  (a column of the upload read as float64, say) refuses the text with a \<^verbatim>\<open>TypeError\<close>, as
  pandas 3 does.
\<close>

definition set_at :: "label \<Rightarrow> string \<Rightarrow> string \<Rightarrow> dataframe \<Rightarrow> exn + dataframe" where
  "set_at index name text df =
     (case dtypes df name of
        OtherDtype d \<Rightarrow> Inl (TypeError (invalid_value text d))
      | TextDtype \<Rightarrow>
          Inr (df\<lparr>rows := map (\<lambda>p. if labels df p = index
                                   then (rows df ! p)(name \<mapsto> Str text)
                                   else rows df ! p)
                              [0..<length (rows df)]\<rparr>))"

text \<open>
  The two assignments that record a row's result, one after the other:
  \<^verbatim>\<open>df.at[index, "Extracted Text"] = text\<close>, then \<^verbatim>\<open>df.at[index, "Extracted URL"] = url\<close>.
\<close>

definition set_derived :: "label \<Rightarrow> string \<Rightarrow> string \<Rightarrow> dataframe \<Rightarrow> exn + dataframe" where
  "set_derived index text url df =
     (case set_at index ''Extracted Text'' text df of
        Inl x \<Rightarrow> Inl x
      | Inr df1 \<Rightarrow> set_at index ''Extracted URL'' url df1)"

text \<open>
  \<^verbatim>\<open>index + 1\<close>, evaluated for the log line of a row that is processed: defined for a
  numeric label, a \<^verbatim>\<open>TypeError\<close> for a text.
\<close>

definition index_plus_one :: "label \<Rightarrow> exn + label" where
  "index_plus_one index =
     (case index of
        IntLabel k \<Rightarrow> Inr (IntLabel (k + 1))
      | TextLabel s \<Rightarrow> Inl (TypeError (''can only concatenate str (not '' @ [CHR 0x22] @ ''int'' @
                                     [CHR 0x22] @ '') to str'')))"

text \<open>\<^verbatim>\<open>row.get(name, default)\<close>.\<close>

definition row_get :: "(string \<rightharpoonup> cell) \<Rightarrow> string \<Rightarrow> cell \<Rightarrow> cell" where
  "row_get r name d = (case r name of None \<Rightarrow> d | Some c \<Rightarrow> c)"

definition evaluation_metrics :: "string list" where
  "evaluation_metrics =
     [''Relevance'', ''Accuracy'', ''Clarity'', ''Tone and Politeness'', ''Completeness'',
      ''Engagement'', ''User Satisfaction'', ''Bias and Ethical'',
      ''Cross-Session Continuity'', ''Information Provenance'']"

definition ensure_column :: "string \<Rightarrow> dataframe \<Rightarrow> dataframe" where
  "ensure_column name df = (if name \<notin> set (columns df) then add_column name df else df)"

fun add_metrics :: "string list \<Rightarrow> dataframe \<Rightarrow> dataframe" where
  "add_metrics [] df = df"
| "add_metrics (metric # metrics) df = add_metrics metrics (ensure_column metric df)"

definition prepare_columns :: "dataframe \<Rightarrow> dataframe" where
  "prepare_columns df =
     ensure_column ''Extracted URL''
       (ensure_column ''Extracted Text'' (add_metrics evaluation_metrics df))"

section \<open>Effects\<close>

text \<open>Opening a path for writing and writing the content; a failed open leaves the files alone.\<close>

definition write_file :: "env \<Rightarrow> string \<Rightarrow> content \<Rightarrow> world \<Rightarrow> exn option \<times> world" where
  "write_file e path c w =
     (case open_error e path of
        Some m \<Rightarrow> (Some (OSError m), w)
      | None \<Rightarrow> (None, w\<lparr>files := (files w)(path \<mapsto> c)\<rparr>))"

definition read_clock :: "env \<Rightarrow> world \<Rightarrow> datetime \<times> world" where
  "read_clock e w = (now e (ticks w), w\<lparr>ticks := Suc (ticks w)\<rparr>)"

text \<open>\<^verbatim>\<open>requests.post(api_url, json=payload, timeout=60)\<close>: the request is recorded in either case.\<close>

definition requests_post :: "env \<Rightarrow> payload \<Rightarrow> world \<Rightarrow> (exn + nat \<times> body) \<times> world" where
  "requests_post e p w =
     (let w' = w\<lparr>calls := calls w @ [p]\<rparr> in
      case api e (length (calls w)) p of
        TransportFailure m \<Rightarrow> (Inl (RequestException m), w')
      | Http status b \<Rightarrow> (Inr (status, b), w'))"

definition response_json :: "env \<Rightarrow> body \<Rightarrow> exn + json" where
  "response_json e b =
     (case b of
        Json j \<Rightarrow> Inr j
      | NotJson m \<Rightarrow>
          Inl (if json_error_is_request_exception e then RequestException m else ValueError m))"

fun py_type_name :: "json \<Rightarrow> string" where
  "py_type_name JNull = ''NoneType''"
| "py_type_name (JBool b) = ''bool''"
| "py_type_name (JNum n) = ''int''"
| "py_type_name (JStr s) = ''str''"
| "py_type_name (JArr xs) = ''list''"
| "py_type_name (JObj kvs) = ''dict''"

definition no_attribute :: "string \<Rightarrow> string \<Rightarrow> exn" where
  "no_attribute ty name =
     AttributeError ([CHR 0x27] @ ty @ [CHR 0x27] @ '' object has no attribute '' @
                     [CHR 0x27] @ name @ [CHR 0x27])"

text \<open>\<^verbatim>\<open>j.get(key, default)\<close>: only a JSON object has the method.\<close>

definition py_get :: "json \<Rightarrow> string \<Rightarrow> json \<Rightarrow> exn + json" where
  "py_get j key d =
     (case j of
        JObj kvs \<Rightarrow> Inr (case map_of (rev kvs) key of None \<Rightarrow> d | Some v \<Rightarrow> v)
      | _ \<Rightarrow> Inl (no_attribute (py_type_name j) ''get''))"

section \<open>Artifact writer\<close>

definition sanitize :: "string \<Rightarrow> string" where
  "sanitize question = take 30 (map (\<lambda>c. if isalnum c then c else CHR ''_'') question)"

definition save_message_to_file ::
  "env \<Rightarrow> json \<Rightarrow> string \<Rightarrow> string \<Rightarrow> string \<Rightarrow> world \<Rightarrow> (exn + string) \<times> world" where
  "save_message_to_file e response_js question product version w =
     (let (t1, w1) = read_clock e w;
          timestamp = strftime_compact t1;
          sanitized_question = sanitize question;
          filename = sanitized_question @ ''_'' @ timestamp @ ''.json'';
          file_path = ''messages/'' @ filename
      in case py_get response_js ''message'' (JStr []) of
           Inl x \<Rightarrow> (Inl x, w1)
         | Inr message_text \<Rightarrow>
             (let (t2, w2) = read_clock e w1;
                  response_with_metadata =
                    JObj [(''question'', JStr question),
                          (''product'', JStr product),
                          (''version'', JStr version),
                          (''timestamp'', JStr (strftime_human t2)),
                          (''response_raw'', response_js),
                          (''response_message'', message_text)]
              in case write_file e file_path (JsonText response_with_metadata) w2 of
                   (Some x, w3) \<Rightarrow> (Inl x, w3)
                 | (None, w3) \<Rightarrow> (Inr file_path, w3)))"

section \<open>Row processor\<close>

definition newline :: string where
  "newline = [CHR 0x0A]"

text \<open>
  The body of the inner \<^verbatim>\<open>try\<close> for a row with a non-blank text question: the exception
  raised if any, the table and the world as they are when the body is left.
\<close>

definition try_row ::
  "env \<Rightarrow> string \<Rightarrow> string \<Rightarrow> label \<Rightarrow> string \<Rightarrow> dataframe \<Rightarrow> world
     \<Rightarrow> exn option \<times> dataframe \<times> world" where
  "try_row e product version index question df w =
     (case requests_post e (question, product, version) w of
        (Inl x, w1) \<Rightarrow> (Some x, df, w1)
      | (Inr (status_code, b), w1) \<Rightarrow>
          if status_code = 200 then
            (case response_json e b of
               Inl x \<Rightarrow> (Some x, df, w1)
             | Inr response_js \<Rightarrow>
                 (case py_get response_js ''message'' (JStr []) of
                    Inl x \<Rightarrow> (Some x, df, w1)
                  | Inr (JStr response_text) \<Rightarrow>
                      (let extracted_urls = extract_urls_from_response response_text in
                       case set_derived index response_text
                              (if extracted_urls \<noteq> []
                               then py_join newline extracted_urls
                               else ''No URL found'') df of
                         Inl x \<Rightarrow> (Some x, df, w1)
                       | Inr df2 \<Rightarrow>
                           (case save_message_to_file e response_js question product version w1 of
                              (Inl x, w2) \<Rightarrow> (Some x, df2, w2)
                            | (Inr file_path, w2) \<Rightarrow> (None, df2, w2)))
                  | Inr other \<Rightarrow> (Some (no_attribute (py_type_name other) ''split''), df, w1)))
          else
            (case set_derived index ''Error: Failed to get response from API''
                    ''No URL found'' df of
               Inl x \<Rightarrow> (Some x, df, w1)
             | Inr df2 \<Rightarrow> (None, df2, w1)))"

text \<open>
  One pass of the loop body for the row at position \<open>pos\<close>, whose index label the loop
  variable \<^verbatim>\<open>index\<close> holds. \<^verbatim>\<open>pd.isna\<close> holds of a missing cell only;
  \<^verbatim>\<open>question.strip()\<close> exists for a text only; the log line of a processed row evaluates
  \<^verbatim>\<open>index + 1\<close> before the inner \<^verbatim>\<open>try\<close>. The inner handler catches a
  \<^verbatim>\<open>RequestException\<close> and nothing else, and its own assignments can raise.
\<close>

definition process_row ::
  "env \<Rightarrow> string \<Rightarrow> string \<Rightarrow> nat \<Rightarrow> dataframe \<Rightarrow> world \<Rightarrow> exn option \<times> dataframe \<times> world" where
  "process_row e product version pos df w =
     (let index = labels df pos in
      case row_get (rows df ! pos) ''Question'' (Str []) of
        Missing \<Rightarrow> (None, df, w)
      | NonText ty \<Rightarrow> (Some (no_attribute ty ''strip''), df, w)
      | Str question \<Rightarrow>
          if py_strip question \<noteq> [] then
            (case index_plus_one index of
               Inl x \<Rightarrow> (Some x, df, w)
             | Inr shown \<Rightarrow>
                 (case try_row e product version index question df w of
                    (Some x, df1, w1) \<Rightarrow>
                      if is_request_exception x then
                        (case set_derived index ''Error: API request failed''
                                ''No URL found'' df1 of
                           Inl y \<Rightarrow> (Some y, df1, w1)
                         | Inr df2 \<Rightarrow> (None, df2, w1))
                      else (Some x, df1, w1)
                  | (None, df1, w1) \<Rightarrow> (None, df1, w1)))
          else (None, df, w))"

text \<open>
  The loop over the rows, in the order of their positions; an exception that leaves a row
  ends the loop.
\<close>

fun process_rows ::
  "env \<Rightarrow> string \<Rightarrow> string \<Rightarrow> nat list \<Rightarrow> dataframe \<Rightarrow> world \<Rightarrow> exn option \<times> dataframe \<times> world" where
  "process_rows e product version [] df w = (None, df, w)"
| "process_rows e product version (pos # rest) df w =
     (case process_row e product version pos df w of
        (Some x, df1, w1) \<Rightarrow> (Some x, df1, w1)
      | (None, df1, w1) \<Rightarrow> process_rows e product version rest df1 w1)"

section \<open>Batch orchestrator\<close>

definition input_filepath :: "string \<Rightarrow> string" where
  "input_filepath filename = ''output/'' @ filename"

text \<open>
  A reader of the spreadsheet library applied to the file at a path: \<^verbatim>\<open>pd.read_excel(path)\<close>
  or \<^verbatim>\<open>pd.read_csv(path)\<close>.
\<close>

definition pd_read :: "(string \<Rightarrow> string + dataframe) \<Rightarrow> string \<Rightarrow> world \<Rightarrow> exn + dataframe" where
  "pd_read reader path w =
     (case files w path of
        Some (Raw bytes) \<Rightarrow>
          (case reader bytes of Inl m \<Rightarrow> Inl (ReadError m) | Inr df \<Rightarrow> Inr df)
      | _ \<Rightarrow> Inl (OSError ''No such file or directory''))"

text \<open>The choice of the reader by extension; \<open>None\<close> is the branch of an unsupported one.\<close>

definition load_table :: "env \<Rightarrow> string \<Rightarrow> string \<Rightarrow> world \<Rightarrow> (exn + dataframe) option" where
  "load_table e ext path w =
     (if ext = ''.xlsx'' then Some (pd_read (read_excel e) path w)
      else if ext = ''.csv'' then Some (pd_read (read_csv e) path w)
      else None)"

text \<open>
  The handler of the upload endpoint. Every exception that leaves the body is caught by the
  outer handler and answered with its message.
\<close>

definition process_file ::
  "env \<Rightarrow> string \<Rightarrow> string \<Rightarrow> string \<Rightarrow> string \<Rightarrow> world \<Rightarrow> response \<times> world" where
  "process_file e filename bytes product version w =
     (case write_file e (input_filepath filename) (Raw bytes) w of
        (Some x, w1) \<Rightarrow> (ErrorJson (str_of_exn x), w1)
      | (None, w1) \<Rightarrow>
          (let ext = py_lower (splitext_ext filename) in
           case load_table e ext (input_filepath filename) w1 of
             None \<Rightarrow> (ErrorJson ''Unsupported file format. Upload Excel or CSV files.'', w1)
           | Some (Inl x) \<Rightarrow> (ErrorJson (str_of_exn x), w1)
           | Some (Inr df) \<Rightarrow>
               if ''Question'' \<notin> set (columns df)
               then (ErrorJson ''The uploaded file must contain a 'Question' column.'', w1)
               else
                 (let df1 = prepare_columns df in
                  case process_rows e product version [0..<length (rows df1)] df1 w1 of
                    (Some x, df2, w2) \<Rightarrow> (ErrorJson (str_of_exn x), w2)
                  | (None, df2, w2) \<Rightarrow>
                      (let (t, w3) = read_clock e w2;
                           output_filename = ''processed_'' @ strftime_compact t @ ext;
                           output_filepath = ''output/'' @ output_filename
                       in case write_file e output_filepath (Sheet ext df2) w3 of
                            (Some x, w4) \<Rightarrow> (ErrorJson (str_of_exn x), w4)
                          | (None, w4) \<Rightarrow>
                              (FileResponse output_filepath output_filename, w4)))))"


section \<open>Predicates of the statements\<close>

text \<open>A question the row loop skips: a missing cell, or a text that is empty once stripped.\<close>

definition blank_question :: "cell \<Rightarrow> bool" where
  "blank_question c =
     (case c of Missing \<Rightarrow> True | Str q \<Rightarrow> py_strip q = [] | NonText ty \<Rightarrow> False)"

text \<open>A question cell that holds a text or nothing.\<close>

definition text_or_missing :: "cell \<Rightarrow> bool" where
  "text_or_missing c = (case c of NonText ty \<Rightarrow> False | _ \<Rightarrow> True)"

text \<open>The questions the row loop sends for a row: the non-blank text, if the cell holds one.\<close>

definition asked :: "(string \<rightharpoonup> cell) \<Rightarrow> string list" where
  "asked r =
     (case row_get r ''Question'' (Str []) of
        Str q \<Rightarrow> (if py_strip q \<noteq> [] then [q] else [])
      | _ \<Rightarrow> [])"

text \<open>
  A reply that lets the loop go on: no response, a status other than 200, a body that is not
  JSON when the HTTP library reports that as a \<^verbatim>\<open>RequestException\<close>, or a JSON object whose
  message is absent or a text.
\<close>

definition harmless_reply :: "env \<Rightarrow> reply \<Rightarrow> bool" where
  "harmless_reply e r =
     (case r of
        TransportFailure m \<Rightarrow> True
      | Http status b \<Rightarrow>
          status \<noteq> 200 \<or>
          (case b of
             NotJson m \<Rightarrow> json_error_is_request_exception e
           | Json j \<Rightarrow>
               (case py_get j ''message'' (JStr []) of Inr (JStr t) \<Rightarrow> True | _ \<Rightarrow> False)))"

text \<open>
  An upload that reaches the row loop: its working copy can be written, the reader chosen
  by its extension parses the bytes to \<open>df\<close>, and \<open>df\<close> has a Question column.
\<close>

definition accepted :: "env \<Rightarrow> string \<Rightarrow> string \<Rightarrow> dataframe \<Rightarrow> bool" where
  "accepted e filename bytes df \<longleftrightarrow>
     open_error e (input_filepath filename) = None \<and>
     (py_lower (splitext_ext filename) = ''.xlsx'' \<and> read_excel e bytes = Inr df \<or>
      py_lower (splitext_ext filename) = ''.csv'' \<and> read_csv e bytes = Inr df) \<and>
     ''Question'' \<in> set (columns df)"

text \<open>
  An index as an ordinary read leaves it, or any other of distinct numeric labels: the log
  line of every row can be written, and an assignment by label reaches one row.
\<close>

definition integer_labels :: "dataframe \<Rightarrow> bool" where
  "integer_labels df \<longleftrightarrow>
     list_all (\<lambda>p. case labels df p of IntLabel k \<Rightarrow> True | TextLabel s \<Rightarrow> False)
       [0..<length (rows df)] \<and>
     distinct (map (labels df) [0..<length (rows df)])"

text \<open>Each derived column that the upload already has is of a text dtype.\<close>

definition text_derived :: "dataframe \<Rightarrow> bool" where
  "text_derived df \<longleftrightarrow>
     (''Extracted Text'' \<notin> set (columns df) \<or> dtypes df ''Extracted Text'' = TextDtype) \<and>
     (''Extracted URL'' \<notin> set (columns df) \<or> dtypes df ''Extracted URL'' = TextDtype)"

text \<open>
  The row processor's contract, in the words of the specification: what a reply puts into
  Extracted Text and Extracted URL. A transport failure gives
  \<^verbatim>\<open>Error: API request failed\<close> and \<^verbatim>\<open>No URL found\<close>; a status other than 200 gives
  \<^verbatim>\<open>Error: Failed to get response from API\<close> and \<^verbatim>\<open>No URL found\<close>; a status 200 gives the
  message and its URLs joined by newlines, or \<^verbatim>\<open>No URL found\<close> when there are none. A
  body that cannot be decoded counts as a transport failure. For a reply that is not a
  harmless one the value is of no use.
\<close>

definition row_outcome :: "reply \<Rightarrow> string \<times> string" where
  "row_outcome r =
     (case r of
        TransportFailure m \<Rightarrow> (''Error: API request failed'', ''No URL found'')
      | Http status b \<Rightarrow>
          if status \<noteq> 200 then (''Error: Failed to get response from API'', ''No URL found'')
          else
            (case b of
               NotJson m \<Rightarrow> (''Error: API request failed'', ''No URL found'')
             | Json j \<Rightarrow>
                 (case py_get j ''message'' (JStr []) of
                    Inr (JStr t) \<Rightarrow>
                      (t, if extract_urls_from_response t \<noteq> []
                          then py_join newline (extract_urls_from_response t)
                          else ''No URL found'')
                  | _ \<Rightarrow> ([], []))))"

text \<open>
  A row with the two derived cells filled from the reply to its question, when it has a
  non-blank one; \<open>n\<close> is the number of the POST that carries the question.
\<close>

definition filled_row ::
  "env \<Rightarrow> string \<Rightarrow> string \<Rightarrow> nat \<Rightarrow> (string \<rightharpoonup> cell) \<Rightarrow> (string \<rightharpoonup> cell)" where
  "filled_row e product version n r =
     (case asked r of
        [] \<Rightarrow> r
      | q # qs \<Rightarrow>
          (let out = row_outcome (api e n (q, product, version))
           in r(''Extracted Text'' \<mapsto> Str (fst out), ''Extracted URL'' \<mapsto> Str (snd out))))"

text \<open>
  The row at position \<open>i\<close> of the output table as the specification has it: the prepared
  row, filled from the reply to the POST numbered by the requests sent before the batch
  (\<open>n0\<close>) and the non-blank questions of the rows before.
\<close>

definition expected_row ::
  "env \<Rightarrow> string \<Rightarrow> string \<Rightarrow> nat \<Rightarrow> dataframe \<Rightarrow> nat \<Rightarrow> (string \<rightharpoonup> cell)" where
  "expected_row e product version n0 df i =
     filled_row e product version (n0 + length (concat (map asked (take i (rows df)))))
       (rows (prepare_columns df) ! i)"

text \<open>
  Two relations of the proofs. A table differs from another at most in the cells of the two
  derived columns; a world differs from another at most in artifacts under \<^verbatim>\<open>messages/\<close>.
\<close>

definition derived_only :: "dataframe \<Rightarrow> dataframe \<Rightarrow> bool" where
  "derived_only df df' \<longleftrightarrow>
     columns df' = columns df \<and> dtypes df' = dtypes df \<and> labels df' = labels df \<and>
     length (rows df') = length (rows df) \<and>
     (\<forall>j < length (rows df). \<forall>m. m \<noteq> ''Extracted Text'' \<longrightarrow> m \<noteq> ''Extracted URL'' \<longrightarrow>
        (rows df' ! j) m = (rows df ! j) m)"

definition only_artifacts :: "world \<Rightarrow> world \<Rightarrow> bool" where
  "only_artifacts w w' \<longleftrightarrow>
     (\<forall>path. files w' path = files w path \<or>
             (\<exists>j. files w' path = Some (JsonText j) \<and> prefix ''messages/'' path))"

text \<open>The bytes of the uploaded copy stored at a path, if the file there is one.\<close>

definition raw_bytes_at :: "world \<Rightarrow> string \<Rightarrow> string option" where
  "raw_bytes_at w path = (case files w path of Some (Raw bytes) \<Rightarrow> Some bytes | _ \<Rightarrow> None)"

section \<open>Concrete inputs\<close>

definition anchor :: "string \<Rightarrow> string" where
  "anchor url = ''<a href='' @ [CHR 0x22] @ url @ [CHR 0x22] @ ''>link</a>''"


definition late_suffix :: string where
  "late_suffix = '' none. Relevant URLs: '' @ anchor ''http://late.com''"

definition range_index :: "nat \<Rightarrow> label" where
  "range_index p = IntLabel (int p)"

definition sample_table :: dataframe where
  "sample_table =
     \<lparr>columns = [''Question'', ''Accuracy''],
      dtypes = (\<lambda>name. TextDtype),
      labels = range_index,
      rows = [[''Question'' \<mapsto> Str ''What is X?'', ''Accuracy'' \<mapsto> Str ''high''],
              [''Question'' \<mapsto> Str '' '', ''Accuracy'' \<mapsto> Missing],
              [''Question'' \<mapsto> Str ''How to Y?'', ''Accuracy'' \<mapsto> Missing]]\<rparr>"

definition sample_time :: datetime where
  "sample_time =
     \<lparr>dt_year = 2024, dt_month = 3, dt_day = 9, dt_hour = 7, dt_minute = 5, dt_second = 59\<rparr>"

definition empty_world :: world where
  "empty_world = \<lparr>files = Map.empty, calls = [], ticks = 0\<rparr>"

text \<open>A service that answers the first POST with status 500 and is unreachable afterwards.\<close>

definition failing_service :: env where
  "failing_service =
     \<lparr>open_error = (\<lambda>path. None),
      read_excel = (\<lambda>bytes. Inl ''not a workbook''),
      read_csv = (\<lambda>bytes. Inr sample_table),
      api = (\<lambda>n p. if n = 0 then Http 500 (NotJson ''Internal Server Error'')
                     else TransportFailure ''timed out''),
      now = (\<lambda>n. sample_time),
      json_error_is_request_exception = True\<rparr>"

text \<open>A workbook whose second question is a number, and a service whose reader parses it.\<close>

definition numeric_table :: dataframe where
  "numeric_table =
     \<lparr>columns = [''Question''],
      dtypes = (\<lambda>name. TextDtype),
      labels = range_index,
      rows = [[''Question'' \<mapsto> Str ''What is X?''],
              [''Question'' \<mapsto> NonText ''int''],
              [''Question'' \<mapsto> Str ''How to Y?'']]\<rparr>"

definition numeric_service :: env where
  "numeric_service = failing_service\<lparr>read_excel := (\<lambda>bytes. Inr numeric_table)\<rparr>"

text \<open>A service that answers every POST with status 200 and the body \<^verbatim>\<open>{"message": null}\<close>.\<close>

definition odd_service :: env where
  "odd_service =
     failing_service\<lparr>api := (\<lambda>n p. Http 200 (Json (JObj [(''message'', JNull)])))\<rparr>"

text \<open>The failing service an hour later.\<close>

definition later_service :: env where
  "later_service = failing_service\<lparr>now := (\<lambda>n. sample_time\<lparr>dt_hour := 8\<rparr>)\<rparr>"



text \<open>
  A service that answers the first POST with status 500 and every later one with status
  200 and a message that has one URL.
\<close>

definition good_message :: string where
  "good_message = ''answer, Relevant URLs: '' @ anchor ''http://z.com''"

definition mixed_service :: env where
  "mixed_service =
     failing_service\<lparr>api := (\<lambda>n p. if n = 0 then Http 500 (NotJson ''Internal Server Error'')
                                    else Http 200 (Json (JObj [(''message'', JStr good_message)])))\<rparr>"

section \<open>Properties of the URL extractor\<close>

lemma py_split_no_sep: "\<not> sublist sep s \<Longrightarrow> py_split sep s = [s]"
  by (induction s) (auto simp: sublist_Cons_right split: list.splits)

lemma marker_length: "length marker = 14"
  by (simp add: marker_def)

text \<open>No proper suffix of the marker is a prefix of it: occurrences cannot overlap.\<close>

lemma marker_no_overlap: "list_all (\<lambda>k. take (14 - k) marker \<noteq> drop k marker) [1..<14]"
  by code_simp

lemma marker_no_straddle:
  assumes "prefix marker (p @ marker @ rest)" and "p \<noteq> []"
  shows "prefix marker p"
proof -
  from assms(1) consider "prefix marker p" | us where "marker = p @ us" "prefix us (marker @ rest)"
    by (auto simp: prefix_append)
  then show ?thesis
  proof cases
    case 1
    then show ?thesis .
  next
    case 2
    let ?k = "length p"
    have k: "?k \<le> 14" using 2(1) marker_length by (metis le_add1 length_append)
    show ?thesis
    proof (cases "?k = 14")
      case True
      then have "us = []"
        using 2(1) marker_length by (metis add_cancel_right_right length_0_conv length_append)
      then show ?thesis using 2(1) by simp
    next
      case False
      have "Suc 0 \<le> ?k" using assms(2) by (cases p) simp_all
      with False k have kin: "?k \<in> set [1..<14]" by simp
      have us: "us = drop ?k marker" using 2(1) by (metis append_eq_conv_conj)
      have "length us = 14 - ?k" using us marker_length by simp
      moreover have "us = take (length us) (marker @ rest)"
        using 2(2) by (metis append_eq_conv_conj prefix_def)
      ultimately have "us = take (14 - ?k) marker"
        using marker_length by simp
      with us have "take (14 - ?k) marker = drop ?k marker" by simp
      moreover have "take (14 - ?k) marker \<noteq> drop ?k marker"
        using marker_no_overlap kin unfolding list_all_iff by blast
      ultimately show ?thesis by simp
    qed
  qed
qed

lemma py_split_at_first:
  "\<not> sublist marker pre \<Longrightarrow> py_split marker (pre @ marker @ rest) = pre # py_split marker rest"
proof (induction pre)
  case Nil
  then show ?case
    by (cases marker) (auto simp: marker_def)
next
  case (Cons c pre)
  have "\<not> prefix marker ((c # pre) @ marker @ rest)"
    using marker_no_straddle [of "c # pre" rest] Cons.prems by (auto dest: prefix_imp_sublist)
  moreover have "\<not> sublist marker pre" using Cons.prems by (auto simp: sublist_Cons_right)
  ultimately show ?case using Cons.IH by simp
qed

text \<open>
  C7. A response text in which the marker \<^verbatim>\<open>Relevant URLs:\<close> does not occur yields the empty
  collection of URLs.
\<close>

theorem no_marker_no_urls:
  "\<not> sublist marker response_text \<Longrightarrow> extract_urls_from_response response_text = []"
  by (simp add: extract_urls_from_response_def py_split_no_sep)

theorem no_marker_no_urls_witness:
  "\<not> sublist marker ''The answer is 42.'' \<and>
   extract_urls_from_response ''The answer is 42.'' = []"
proof -
  have h: "\<not> sublist marker ''The answer is 42.''" by code_simp
  show ?thesis using h no_marker_no_urls [OF h] by simp
qed




text \<open>
  C2, as the claim states it, fails: with a second marker in the text, an anchor after
  the second marker lies in the text after the first marker, yet it is not returned.
\<close>

theorem later_marker_counterexample:
  "findall_href late_suffix = [''http://late.com''] \<and>
   extract_urls_from_response (''Answer. '' @ marker @ late_suffix) = []"
  by code_simp

text \<open>
  C2, amended. When the marker occurs two or more times, the extractor scans the text
  between the first and the second occurrence of the marker, and returns the href values
  captured there, each once; the text after the second occurrence is not scanned.
\<close>

theorem urls_between_first_two_markers:
  assumes "\<not> sublist marker pre" and "\<not> sublist marker mid"
  shows "extract_urls_from_response (pre @ marker @ mid @ marker @ post) =
           remdups (findall_href mid)"
  using assms by (simp add: extract_urls_from_response_def py_split_at_first)

theorem urls_between_first_two_markers_witness:
  "\<not> sublist marker ''Answer. '' \<and> \<not> sublist marker ('' '' @ anchor ''http://a.com'' @ '' '') \<and>
   extract_urls_from_response
     (''Answer. '' @ marker @ ('' '' @ anchor ''http://a.com'' @ '' '') @ marker @
      anchor ''http://late.com'') = [''http://a.com'']"
proof -
  have h1: "\<not> sublist marker ''Answer. ''" by code_simp
  have h2: "\<not> sublist marker ('' '' @ anchor ''http://a.com'' @ '' '')" by code_simp
  have f: "remdups (findall_href ('' '' @ anchor ''http://a.com'' @ '' '')) = [''http://a.com'']"
    by code_simp
  show ?thesis
    using h1 h2 f urls_between_first_two_markers [OF h1 h2, of "anchor ''http://late.com''"]
    by simp
qed


section \<open>Properties of the table operations\<close>


lemma set_at_Inr:
  assumes "set_at index name text df = Inr df'"
  shows "dtypes df name = TextDtype \<and> columns df' = columns df \<and> dtypes df' = dtypes df \<and>
         labels df' = labels df \<and> length (rows df') = length (rows df) \<and>
         (\<forall>j < length (rows df).
            rows df' ! j = (if labels df j = index then (rows df ! j)(name \<mapsto> Str text)
                            else rows df ! j))"
proof (cases "dtypes df name")
  case TextDtype
  then have "df' = df\<lparr>rows := map (\<lambda>p. if labels df p = index
                                   then (rows df ! p)(name \<mapsto> Str text)
                                   else rows df ! p)
                              [0..<length (rows df)]\<rparr>"
    using assms by (simp add: set_at_def)
  then show ?thesis using TextDtype by simp
next
  case (OtherDtype d)
  then show ?thesis using assms by (simp add: set_at_def)
qed

lemma set_at_text:
  "dtypes df name = TextDtype \<Longrightarrow> \<exists>df'. set_at index name text df = Inr df'"
  by (simp add: set_at_def)

lemma set_derived_Inr:
  assumes "set_derived index text url df = Inr df'"
  shows "dtypes df ''Extracted Text'' = TextDtype \<and> dtypes df ''Extracted URL'' = TextDtype \<and>
         columns df' = columns df \<and> dtypes df' = dtypes df \<and>
         labels df' = labels df \<and> length (rows df') = length (rows df) \<and>
         (\<forall>j < length (rows df).
            rows df' ! j =
              (if labels df j = index
               then (rows df ! j)(''Extracted Text'' \<mapsto> Str text, ''Extracted URL'' \<mapsto> Str url)
               else rows df ! j))"
proof -
  obtain df1 where 1: "set_at index ''Extracted Text'' text df = Inr df1"
    and 2: "set_at index ''Extracted URL'' url df1 = Inr df'"
    using assms by (auto simp: set_derived_def split: sum.splits)
  note a = set_at_Inr [OF 1]
  note b = set_at_Inr [OF 2]
  show ?thesis using a b by simp
qed

lemma set_derived_text:
  assumes "dtypes df ''Extracted Text'' = TextDtype" and "dtypes df ''Extracted URL'' = TextDtype"
  shows "\<exists>df'. set_derived index text url df = Inr df'"
proof -
  obtain df1 where 1: "set_at index ''Extracted Text'' text df = Inr df1"
    using set_at_text [OF assms(1)] by blast
  have "dtypes df1 ''Extracted URL'' = TextDtype" using set_at_Inr [OF 1] assms(2) by simp
  then obtain df2 where "set_at index ''Extracted URL'' url df1 = Inr df2"
    using set_at_text by blast
  then show ?thesis using 1 by (simp add: set_derived_def)
qed

lemma derived_only_refl: "derived_only df df"
  by (simp add: derived_only_def)

lemma derived_only_trans:
  "derived_only df df1 \<Longrightarrow> derived_only df1 df2 \<Longrightarrow> derived_only df df2"
  by (simp add: derived_only_def)

lemma set_derived_derived_only:
  assumes "set_derived index text url df = Inr df'"
  shows "derived_only df df'"
  using set_derived_Inr [OF assms] by (simp add: derived_only_def)

lemma only_artifacts_refl: "only_artifacts w w"
  by (simp add: only_artifacts_def)

lemma only_artifacts_trans:
  "only_artifacts w w1 \<Longrightarrow> only_artifacts w1 w2 \<Longrightarrow> only_artifacts w w2"
  unfolding only_artifacts_def by metis

lemma columns_ensure_column:
  "columns (ensure_column n df) = (if n \<in> set (columns df) then columns df else columns df @ [n])"
  by (simp add: ensure_column_def add_column_def)

lemma set_columns_ensure_column:
  "set (columns (ensure_column n df)) = insert n (set (columns df))"
  by (auto simp: ensure_column_def add_column_def)

lemma length_rows_ensure_column [simp]: "length (rows (ensure_column n df)) = length (rows df)"
  by (simp add: ensure_column_def add_column_def)

lemma nth_rows_ensure_column:
  "i < length (rows df) \<Longrightarrow>
   (rows (ensure_column n df) ! i) m =
     (if m = n \<and> n \<notin> set (columns df) then Some (Str []) else (rows df ! i) m)"
  by (simp add: ensure_column_def add_column_def)

lemma length_rows_add_metrics [simp]: "length (rows (add_metrics ms df)) = length (rows df)"
  by (induction ms arbitrary: df) simp_all

lemma set_columns_add_metrics: "set (columns (add_metrics ms df)) = set (columns df) \<union> set ms"
  by (induction ms arbitrary: df) (auto simp: set_columns_ensure_column)

lemma nth_rows_add_metrics:
  "i < length (rows df) \<Longrightarrow>
   (rows (add_metrics ms df) ! i) m =
     (if m \<in> set ms \<and> m \<notin> set (columns df) then Some (Str []) else (rows df ! i) m)"
proof (induction ms arbitrary: df)
  case Nil
  then show ?case by simp
next
  case (Cons a ms)
  then show ?case
    by (auto simp: nth_rows_ensure_column set_columns_ensure_column)
qed

lemma length_rows_prepare_columns [simp]:
  "length (rows (prepare_columns df)) = length (rows df)"
  by (simp add: prepare_columns_def)


lemma nth_rows_prepare_columns:
  "i < length (rows df) \<Longrightarrow>
   (rows (prepare_columns df) ! i) m =
     (if (m \<in> set evaluation_metrics \<or> m = ''Extracted Text'' \<or> m = ''Extracted URL'') \<and>
         m \<notin> set (columns df)
      then Some (Str []) else (rows df ! i) m)"
  by (auto simp: prepare_columns_def nth_rows_ensure_column nth_rows_add_metrics
      set_columns_ensure_column set_columns_add_metrics)

lemma labels_ensure_column [simp]: "labels (ensure_column n df) = labels df"
  by (simp add: ensure_column_def add_column_def)

lemma labels_add_metrics [simp]: "labels (add_metrics ms df) = labels df"
  by (induction ms arbitrary: df) simp_all

lemma labels_prepare_columns [simp]: "labels (prepare_columns df) = labels df"
  by (simp add: prepare_columns_def)

lemma dtypes_ensure_column:
  "dtypes (ensure_column n df) m =
     (if m = n \<and> n \<notin> set (columns df) then TextDtype else dtypes df m)"
  by (simp add: ensure_column_def add_column_def)

lemma dtypes_add_metrics:
  "dtypes (add_metrics ms df) m =
     (if m \<in> set ms \<and> m \<notin> set (columns df) then TextDtype else dtypes df m)"
proof (induction ms arbitrary: df)
  case Nil
  then show ?case by simp
next
  case (Cons a ms)
  then show ?case
    by (auto simp: dtypes_ensure_column set_columns_ensure_column)
qed

lemma derived_not_metrics:
  "''Extracted Text'' \<notin> set evaluation_metrics" "''Extracted URL'' \<notin> set evaluation_metrics"
  by (simp_all add: evaluation_metrics_def)

lemma dtypes_prepare_columns:
  assumes "text_derived df"
  shows "dtypes (prepare_columns df) ''Extracted Text'' = TextDtype"
    and "dtypes (prepare_columns df) ''Extracted URL'' = TextDtype"
  using assms derived_not_metrics
  by (auto simp: text_derived_def prepare_columns_def dtypes_ensure_column dtypes_add_metrics
      set_columns_ensure_column set_columns_add_metrics)

section \<open>Properties of the row processor\<close>

lemma requests_post_world:
  "requests_post e p w = (r, w1) \<Longrightarrow>
     calls w1 = calls w @ [p] \<and> files w1 = files w \<and> ticks w1 = ticks w"
  by (auto simp: requests_post_def Let_def split: reply.splits)

lemma save_message_world:
  assumes "save_message_to_file e rj q p v w = (r, w')"
  shows "calls w' = calls w \<and> only_artifacts w w'"
  using assms
  by (auto simp: save_message_to_file_def read_clock_def write_file_def Let_def
      only_artifacts_def split: sum.splits option.splits if_splits)

lemma try_row_result:
  assumes "try_row e product version index q df w = (x, df', w')"
  shows "calls w' = calls w @ [(q, product, version)] \<and> derived_only df df' \<and>
         only_artifacts w w'"
proof -
  obtain r w1 where rp: "requests_post e (q, product, version) w = (r, w1)"
    by (cases "requests_post e (q, product, version) w") auto
  have w1: "calls w1 = calls w @ [(q, product, version)]" "only_artifacts w w1"
    using requests_post_world [OF rp] by (simp_all add: only_artifacts_def)
  note same = derived_only_refl [of df]
  show ?thesis
  proof (cases r)
    case (Inl x')
    then show ?thesis using assms rp w1 same by (auto simp: try_row_def)
  next
    case (Inr sb)
    obtain status b where sb: "sb = (status, b)" by (cases sb) auto
    show ?thesis
    proof (cases "status = 200")
      case False
      show ?thesis
      proof (cases "set_derived index ''Error: Failed to get response from API''
                      ''No URL found'' df")
        case (Inl y)
        then show ?thesis using assms rp w1 Inr sb False same by (auto simp: try_row_def)
      next
        case d: (Inr df2)
        then have "df' = df2" "w' = w1" using assms rp Inr sb False by (auto simp: try_row_def)
        then show ?thesis using w1 set_derived_derived_only [OF d] by simp
      qed
    next
      case True
      show ?thesis
      proof (cases "response_json e b")
        case (Inl x')
        then show ?thesis using assms rp w1 Inr sb True same by (auto simp: try_row_def)
      next
        case rj: (Inr rjs)
        show ?thesis
        proof (cases "py_get rjs ''message'' (JStr [])")
          case (Inl x')
          then show ?thesis using assms rp w1 Inr sb True rj same by (auto simp: try_row_def)
        next
          case msg: (Inr t)
          show ?thesis
          proof (cases "\<exists>s. t = JStr s")
            case False
            then show ?thesis using assms rp w1 Inr sb True rj msg same
              by (cases t) (auto simp: try_row_def)
          next
            case True': True
            then obtain s where t: "t = JStr s" by blast
            let ?url = "if extract_urls_from_response s \<noteq> []
                        then py_join newline (extract_urls_from_response s)
                        else ''No URL found''"
            show ?thesis
            proof (cases "set_derived index s ?url df")
              case (Inl y)
              then show ?thesis using assms rp w1 Inr sb True rj msg t same
                by (auto simp: try_row_def Let_def)
            next
              case d: (Inr df2)
              obtain r2 w2 where
                sm: "save_message_to_file e rjs q product version w1 = (r2, w2)"
                by (cases "save_message_to_file e rjs q product version w1") auto
              note sw = save_message_world [OF sm]
              have "df' = df2 \<and> w' = w2"
                using assms rp Inr sb True rj msg t sm d
                by (cases r2) (simp_all add: try_row_def Let_def)
              then show ?thesis
                using sw w1 set_derived_derived_only [OF d] only_artifacts_trans by auto
            qed
          qed
        qed
      qed
    qed
  qed
qed

lemma asked_simps:
  "row_get r ''Question'' (Str []) = Missing \<Longrightarrow> asked r = []"
  "row_get r ''Question'' (Str []) = NonText ty \<Longrightarrow> asked r = []"
  "row_get r ''Question'' (Str []) = Str q \<Longrightarrow> py_strip q = [] \<Longrightarrow> asked r = []"
  "row_get r ''Question'' (Str []) = Str q \<Longrightarrow> py_strip q \<noteq> [] \<Longrightarrow> asked r = [q]"
  by (simp_all add: asked_def)

lemma process_row_result:
  assumes "process_row e product version i df w = (x, df', w')"
  shows "derived_only df df' \<and> only_artifacts w w' \<and>
         (x = None \<longrightarrow>
            calls w' = calls w @ map (\<lambda>q. (q, product, version)) (asked (rows df ! i))) \<and>
         (calls w' = calls w \<or>
          calls w' = calls w @ map (\<lambda>q. (q, product, version)) (asked (rows df ! i)))"
proof (cases "row_get (rows df ! i) ''Question'' (Str [])")
  case Missing
  then show ?thesis using assms
    by (auto simp: process_row_def Let_def asked_simps derived_only_refl only_artifacts_refl)
next
  case (NonText ty)
  then show ?thesis using assms
    by (auto simp: process_row_def Let_def asked_simps derived_only_refl only_artifacts_refl)
next
  case (Str q)
  show ?thesis
  proof (cases "py_strip q = []")
    case True
    then show ?thesis using assms Str
      by (auto simp: process_row_def Let_def asked_simps derived_only_refl only_artifacts_refl)
  next
    case False
    note a = asked_simps(4) [OF Str False]
    show ?thesis
    proof (cases "index_plus_one (labels df i)")
      case (Inl y)
      then show ?thesis using assms Str False
        by (auto simp: process_row_def Let_def derived_only_refl only_artifacts_refl)
    next
      case (Inr shown)
      obtain x1 df1 w1 where
        t: "try_row e product version (labels df i) q df w = (x1, df1, w1)"
        by (cases "try_row e product version (labels df i) q df w") auto
      note r = try_row_result [OF t]
      have w: "w' = w1" using assms Str False Inr t
        by (auto simp: process_row_def Let_def split: option.splits if_splits sum.splits)
      have "df' = df1 \<or>
            set_derived (labels df i) ''Error: API request failed'' ''No URL found'' df1 = Inr df'"
        using assms Str False Inr t
        by (auto simp: process_row_def Let_def split: option.splits if_splits sum.splits)
      then have "derived_only df1 df'"
        using derived_only_refl set_derived_derived_only by blast
      then have "derived_only df df'" using r derived_only_trans by blast
      then show ?thesis using r w a by simp
    qed
  qed
qed

text \<open>
  What the inner \<^verbatim>\<open>try\<close> does with a harmless reply when the derived columns hold texts and
  files can be written: it records the outcome of the contract, or leaves the table as it
  is with a \<^verbatim>\<open>RequestException\<close> for the handler.
\<close>

lemma try_row_harmless:
  assumes h: "harmless_reply e (api e (length (calls w)) (q, product, version))"
    and o: "\<forall>path. open_error e path = None"
    and d: "dtypes df ''Extracted Text'' = TextDtype" "dtypes df ''Extracted URL'' = TextDtype"
  shows "\<exists>x df' w'. try_row e product version index q df w = (x, df', w') \<and>
           (case x of
              None \<Rightarrow>
                set_derived index
                  (fst (row_outcome (api e (length (calls w)) (q, product, version))))
                  (snd (row_outcome (api e (length (calls w)) (q, product, version)))) df = Inr df'
            | Some ex \<Rightarrow>
                is_request_exception ex \<and> df' = df \<and>
                row_outcome (api e (length (calls w)) (q, product, version)) =
                  (''Error: API request failed'', ''No URL found''))"
proof (cases "api e (length (calls w)) (q, product, version)")
  case (TransportFailure m)
  then show ?thesis by (simp add: try_row_def requests_post_def row_outcome_def)
next
  case (Http status b)
  show ?thesis
  proof (cases "status = 200")
    case False
    obtain df2 where
      s: "set_derived index ''Error: Failed to get response from API'' ''No URL found'' df = Inr df2"
      using set_derived_text [OF d] by blast
    then show ?thesis using Http False
      by (simp add: try_row_def requests_post_def row_outcome_def)
  next
    case True
    show ?thesis
    proof (cases b)
      case (NotJson m)
      then show ?thesis using Http True h
        by (simp add: try_row_def requests_post_def response_json_def harmless_reply_def
            row_outcome_def)
    next
      case (Json j)
      then obtain t where m: "py_get j ''message'' (JStr []) = Inr (JStr t)"
        using Http True h
        by (auto simp: harmless_reply_def split: sum.splits json.splits)
      let ?url = "if extract_urls_from_response t \<noteq> []
                  then py_join newline (extract_urls_from_response t)
                  else ''No URL found''"
      obtain df2 where s: "set_derived index t ?url df = Inr df2"
        using set_derived_text [OF d] by blast
      show ?thesis using Http True Json m s o
        by (simp add: try_row_def requests_post_def response_json_def Let_def
            save_message_to_file_def read_clock_def write_file_def row_outcome_def)
    qed
  qed
qed

lemma process_row_harmless:
  assumes q: "row_get (rows df ! i) ''Question'' (Str []) = Str q" "py_strip q \<noteq> []"
    and l: "labels df i = IntLabel k"
    and h: "harmless_reply e (api e (length (calls w)) (q, product, version))"
    and o: "\<forall>path. open_error e path = None"
    and d: "dtypes df ''Extracted Text'' = TextDtype" "dtypes df ''Extracted URL'' = TextDtype"
  shows "\<exists>df' w'. process_row e product version i df w = (None, df', w') \<and>
           set_derived (labels df i)
             (fst (row_outcome (api e (length (calls w)) (q, product, version))))
             (snd (row_outcome (api e (length (calls w)) (q, product, version)))) df = Inr df'"
proof -
  let ?out = "row_outcome (api e (length (calls w)) (q, product, version))"
  obtain x df1 w1 where t: "try_row e product version (labels df i) q df w = (x, df1, w1)"
    and c: "case x of
              None \<Rightarrow> set_derived (labels df i) (fst ?out) (snd ?out) df = Inr df1
            | Some ex \<Rightarrow> is_request_exception ex \<and> df1 = df \<and>
                ?out = (''Error: API request failed'', ''No URL found'')"
    using try_row_harmless [OF h o d, of "labels df i"] by blast
  show ?thesis
  proof (cases x)
    case None
    then show ?thesis using q l t c by (simp add: process_row_def index_plus_one_def)
  next
    case (Some ex)
    obtain df2 where
      s: "set_derived (labels df i) ''Error: API request failed'' ''No URL found'' df = Inr df2"
      using set_derived_text [OF d] by blast
    then show ?thesis using Some q l t c by (simp add: process_row_def index_plus_one_def)
  qed
qed




text \<open>
  C6. A row whose question is missing or blank is left as it is: the row step returns the
  table and the world unchanged (no POST, no artifact, no cell written). In a table just
  prepared, the derived columns that the upload did not have hold the empty text there.
\<close>

theorem blank_row_untouched:
  "(blank_question (row_get (rows df ! index) ''Question'' (Str [])) \<longrightarrow>
      process_row e product version index df w = (None, df, w)) \<and>
   (index < length (rows df0) \<and> ''Extracted Text'' \<notin> set (columns df0) \<longrightarrow>
      (rows (prepare_columns df0) ! index) ''Extracted Text'' = Some (Str [])) \<and>
   (index < length (rows df0) \<and> ''Extracted URL'' \<notin> set (columns df0) \<longrightarrow>
      (rows (prepare_columns df0) ! index) ''Extracted URL'' = Some (Str []))"
  by (auto simp: process_row_def Let_def blank_question_def nth_rows_prepare_columns
      split: cell.splits)

theorem blank_row_untouched_witness:
  "blank_question (row_get (rows (prepare_columns sample_table) ! 1) ''Question'' (Str [])) \<and>
   process_row failing_service ''prod'' ''1.0'' 1 (prepare_columns sample_table) empty_world =
     (None, prepare_columns sample_table, empty_world) \<and>
   (rows (prepare_columns sample_table) ! 1) ''Extracted Text'' = Some (Str []) \<and>
   (rows (prepare_columns sample_table) ! 1) ''Extracted URL'' = Some (Str [])"
proof -
  have l: "1 < length (rows sample_table)" by (simp add: sample_table_def)
  have c: "''Extracted Text'' \<notin> set (columns sample_table)"
          "''Extracted URL'' \<notin> set (columns sample_table)"
    by (simp_all add: sample_table_def)
  have "(rows (prepare_columns sample_table) ! 1) ''Question'' = Some (Str '' '')"
    using l by (simp add: nth_rows_prepare_columns sample_table_def)
  then have q: "row_get (rows (prepare_columns sample_table) ! 1) ''Question'' (Str []) = Str '' ''"
    by (simp add: row_get_def)
  have "py_strip '' '' = []" by code_simp
  with q have b: "blank_question (row_get (rows (prepare_columns sample_table) ! 1)
                  ''Question'' (Str []))"
    by (simp add: blank_question_def)
  show ?thesis
    using b l c
      blank_row_untouched [of "prepare_columns sample_table" 1 failing_service "''prod''"
        "''1.0''" empty_world sample_table]
    by blast
qed


section \<open>Properties of the batch\<close>

lemma asked_cong: "r ''Question'' = r' ''Question'' \<Longrightarrow> asked r = asked r'"
  by (simp add: asked_def row_get_def)

lemma derived_only_question:
  "derived_only df df' \<Longrightarrow> i < length (rows df) \<Longrightarrow>
   (rows df' ! i) ''Question'' = (rows df ! i) ''Question''"
  by (simp add: derived_only_def)

lemma derived_only_asked:
  "derived_only df df' \<Longrightarrow> i < length (rows df) \<Longrightarrow> asked (rows df' ! i) = asked (rows df ! i)"
  by (rule asked_cong) (rule derived_only_question)

lemma derived_only_length: "derived_only df df' \<Longrightarrow> length (rows df') = length (rows df)"
  by (simp add: derived_only_def)

lemma process_rows_result:
  "\<forall>i \<in> set idxs. i < length (rows df) \<Longrightarrow>
   process_rows e product version idxs df w = (x, df', w') \<Longrightarrow>
     derived_only df df' \<and> only_artifacts w w' \<and>
     (x = None \<longrightarrow>
        calls w' = calls w @ map (\<lambda>q. (q, product, version))
                               (concat (map (\<lambda>i. asked (rows df ! i)) idxs)))"
proof (induction idxs arbitrary: df w)
  case Nil
  then show ?case by (simp add: derived_only_refl only_artifacts_refl)
next
  case (Cons i idxs)
  obtain x1 df1 w1 where s: "process_row e product version i df w = (x1, df1, w1)"
    by (cases "process_row e product version i df w") auto
  note r = process_row_result [OF s]
  show ?case
  proof (cases x1)
    case (Some ex)
    then have "x = Some ex" "df' = df1" "w' = w1" using Cons.prems s by simp_all
    then show ?thesis using r by simp
  next
    case None
    then have rest: "process_rows e product version idxs df1 w1 = (x, df', w')"
      using Cons.prems s by simp
    have len: "length (rows df1) = length (rows df)" using r derived_only_length by blast
    have "\<forall>k \<in> set idxs. k < length (rows df1)" using Cons.prems(1) len by simp
    note ih = Cons.IH [OF this rest]
    have q: "map (\<lambda>k. asked (rows df1 ! k)) idxs = map (\<lambda>k. asked (rows df ! k)) idxs"
      using r Cons.prems(1) by (auto intro!: derived_only_asked)
    have c: "x = None \<longrightarrow> calls w' = calls w @ map (\<lambda>q. (q, product, version))
                (concat (map (\<lambda>i. asked (rows df ! i)) (i # idxs)))"
      using ih r None q by simp
    have f: "only_artifacts w w'" using ih r only_artifacts_trans by blast
    have t: "derived_only df df'" using ih r derived_only_trans by blast
    show ?thesis using c f t by simp
  qed
qed

lemma process_rows_non_text:
  "i \<in> set idxs \<Longrightarrow> \<forall>k \<in> set idxs. k < length (rows df) \<Longrightarrow>
   row_get (rows df ! i) ''Question'' (Str []) = NonText ty \<Longrightarrow>
   \<exists>ex. fst (process_rows e product version idxs df w) = Some ex"
proof (induction idxs arbitrary: df w)
  case Nil
  then show ?case by simp
next
  case (Cons k idxs)
  obtain x1 df1 w1 where s: "process_row e product version k df w = (x1, df1, w1)"
    by (cases "process_row e product version k df w") auto
  note r = process_row_result [OF s]
  show ?case
  proof (cases x1)
    case (Some ex)
    then show ?thesis using s by simp
  next
    case None
    have "k \<noteq> i" using None s Cons.prems(3) by (auto simp: process_row_def Let_def)
    then have m: "i \<in> set idxs" using Cons.prems(1) by simp
    have len: "length (rows df1) = length (rows df)" using r derived_only_length by blast
    have b: "\<forall>j \<in> set idxs. j < length (rows df1)" using Cons.prems(2) len by simp
    have "i < length (rows df)" using Cons.prems(1,2) by auto
    then have "row_get (rows df1 ! i) ''Question'' (Str []) = NonText ty"
      using r Cons.prems(3) derived_only_question [of df df1 i] by (simp add: row_get_def)
    then show ?thesis using Cons.IH [OF m b, of w1] s None by simp
  qed
qed

lemma process_rows_sent_before:
  "row_get (rows df ! i) ''Question'' (Str []) = NonText ty \<Longrightarrow> a \<le> i \<Longrightarrow> i < n \<Longrightarrow>
   n \<le> length (rows df) \<Longrightarrow>
   process_rows e product version [a..<n] df w = (x, df', w') \<Longrightarrow>
   \<exists>j. a \<le> j \<and> j \<le> i \<and>
       calls w' = calls w @ map (\<lambda>q. (q, product, version))
                              (concat (map (\<lambda>k. asked (rows df ! k)) [a..<j]))"
proof (induction "i - a" arbitrary: a df w)
  case 0
  then have a: "a = i" by simp
  have u: "[a..<n] = i # [Suc i..<n]" using a "0.prems"(3) by (simp add: upt_conv_Cons)
  have "process_row e product version i df w = (Some (no_attribute ty ''strip''), df, w)"
    using "0.prems"(1) by (simp add: process_row_def)
  then have "w' = w" using "0.prems"(5) u by simp
  then show ?case using a by auto
next
  case (Suc d)
  then have lt: "a < i" by simp
  then have u: "[a..<n] = a # [Suc a..<n]" using Suc.prems(3) by (simp add: upt_conv_Cons)
  obtain x1 df1 w1 where s: "process_row e product version a df w = (x1, df1, w1)"
    by (cases "process_row e product version a df w") auto
  note r = process_row_result [OF s]
  show ?case
  proof (cases x1)
    case (Some ex)
    then have "w' = w1" using Suc.prems(5) u s by simp
    then have "calls w' = calls w @ map (\<lambda>q. (q, product, version))
                              (concat (map (\<lambda>k. asked (rows df ! k)) [a..<a])) \<or>
               calls w' = calls w @ map (\<lambda>q. (q, product, version))
                              (concat (map (\<lambda>k. asked (rows df ! k)) [a..<Suc a]))"
      using r by auto
    moreover have "a \<le> a" "a \<le> i" "a \<le> Suc a" "Suc a \<le> i" using lt by simp_all
    ultimately show ?thesis by blast
  next
    case None
    then have rest: "process_rows e product version [Suc a..<n] df1 w1 = (x, df', w')"
      using Suc.prems(5) u s by simp
    have il: "i < length (rows df)" using Suc.prems(3,4) by simp
    have len: "length (rows df1) = length (rows df)" using r derived_only_length by blast
    have q1: "row_get (rows df1 ! i) ''Question'' (Str []) = NonText ty"
      using r Suc.prems(1) derived_only_question [of df df1 i] il by (simp add: row_get_def)
    have d: "d = i - Suc a" using Suc.hyps(2) by simp
    have n1: "n \<le> length (rows df1)" using Suc.prems(4) len by simp
    obtain j where j: "Suc a \<le> j" "j \<le> i"
      and c: "calls w' = calls w1 @ map (\<lambda>q. (q, product, version))
                              (concat (map (\<lambda>k. asked (rows df1 ! k)) [Suc a..<j]))"
      using Suc.hyps(1) [OF d q1 _ Suc.prems(3) n1 rest] lt by auto
    have q: "map (\<lambda>k. asked (rows df1 ! k)) [Suc a..<j] = map (\<lambda>k. asked (rows df ! k)) [Suc a..<j]"
      using r j(2) il by (auto intro!: derived_only_asked)
    have "[a..<j] = a # [Suc a..<j]" using j(1) by (simp add: upt_conv_Cons)
    then have "calls w' = calls w @ map (\<lambda>q. (q, product, version))
                              (concat (map (\<lambda>k. asked (rows df ! k)) [a..<j]))"
      using c r q None by simp
    moreover have "a \<le> j" using j(1) by simp
    ultimately show ?thesis using j(2) by blast
  qed
qed

lemma map_asked_take:
  "j \<le> length rs \<Longrightarrow> map (\<lambda>k. asked (rs ! k)) [0..<j] = map asked (take j rs)"
  by (rule nth_equalityI) simp_all
lemma labels_distinct:
  assumes "integer_labels df" and "i < length (rows df)" and "j < length (rows df)"
  shows "(labels df j = labels df i) = (j = i)"
proof -
  let ?xs = "map (labels df) [0..<length (rows df)]"
  have "distinct ?xs" using assms(1) by (simp add: integer_labels_def)
  moreover have "j < length ?xs" "i < length ?xs" using assms(2,3) by simp_all
  ultimately have "(?xs ! j = ?xs ! i) = (j = i)" by (rule nth_eq_iff_index_eq)
  then show ?thesis using assms(2,3) by simp
qed

lemma labels_integer:
  assumes "integer_labels df" and "i < length (rows df)"
  shows "\<exists>k. labels df i = IntLabel k"
proof -
  have "case labels df i of IntLabel k \<Rightarrow> True | TextLabel s \<Rightarrow> False"
    using assms by (simp add: integer_labels_def list_all_iff)
  then show ?thesis by (cases "labels df i") simp_all
qed

text \<open>
  One pass of the loop over a row whose question is a text or missing, in a table with
  distinct numeric labels and derived columns that hold texts, with harmless replies: the
  pass ends without an exception, sends the row's question if it has one, and fills this
  row and no other.
\<close>

lemma process_row_step:
  assumes i: "i < length (rows df)"
    and il: "integer_labels df"
    and d: "dtypes df ''Extracted Text'' = TextDtype" "dtypes df ''Extracted URL'' = TextDtype"
    and t: "text_or_missing (row_get (rows df ! i) ''Question'' (Str []))"
    and h: "\<forall>n p. harmless_reply e (api e n p)"
    and o: "\<forall>path. open_error e path = None"
  shows "\<exists>df' w'. process_row e product version i df w = (None, df', w') \<and>
           derived_only df df' \<and> only_artifacts w w' \<and>
           calls w' = calls w @ map (\<lambda>q. (q, product, version)) (asked (rows df ! i)) \<and>
           (\<forall>j < length (rows df).
              rows df' ! j =
                (if j = i then filled_row e product version (length (calls w)) (rows df ! i)
                 else rows df ! j))"
proof (cases "asked (rows df ! i)")
  case Nil
  then have "process_row e product version i df w = (None, df, w)"
    using t
    by (auto simp: asked_def process_row_def Let_def text_or_missing_def
        split: cell.splits if_splits)
  then show ?thesis
    using Nil by (simp add: derived_only_refl only_artifacts_refl filled_row_def)
next
  case (Cons q qs)
  then have q: "row_get (rows df ! i) ''Question'' (Str []) = Str q" "py_strip q \<noteq> []"
    and a: "asked (rows df ! i) = [q]"
    by (auto simp: asked_def split: cell.splits if_splits)
  obtain k where l: "labels df i = IntLabel k" using labels_integer [OF il i] by blast
  let ?out = "row_outcome (api e (length (calls w)) (q, product, version))"
  have hh: "harmless_reply e (api e (length (calls w)) (q, product, version))"
    using h by simp
  obtain df' w' where p: "process_row e product version i df w = (None, df', w')"
    and s: "set_derived (labels df i) (fst ?out) (snd ?out) df = Inr df'"
    using process_row_harmless [OF q l hh o d] by blast
  note r = process_row_result [OF p]
  have "\<forall>j < length (rows df).
          rows df' ! j =
            (if j = i then filled_row e product version (length (calls w)) (rows df ! i)
             else rows df ! j)"
    using set_derived_Inr [OF s] labels_distinct [OF il i] i a
    by (simp add: filled_row_def Let_def)
  then show ?thesis using p r by simp
qed

lemma process_rows_harmless:
  assumes h: "\<forall>n p. harmless_reply e (api e n p)"
    and o: "\<forall>path. open_error e path = None"
  shows "a \<le> n \<Longrightarrow> n \<le> length (rows df) \<Longrightarrow> integer_labels df \<Longrightarrow>
     dtypes df ''Extracted Text'' = TextDtype \<Longrightarrow> dtypes df ''Extracted URL'' = TextDtype \<Longrightarrow>
     \<forall>i < length (rows df). text_or_missing (row_get (rows df ! i) ''Question'' (Str [])) \<Longrightarrow>
     \<exists>df' w'. process_rows e product version [a..<n] df w = (None, df', w') \<and>
        derived_only df df' \<and> only_artifacts w w' \<and>
        calls w' = calls w @ map (\<lambda>q. (q, product, version))
                               (concat (map (\<lambda>k. asked (rows df ! k)) [a..<n])) \<and>
        (\<forall>i < length (rows df).
           rows df' ! i =
             (if a \<le> i \<and> i < n
              then filled_row e product version
                     (length (calls w) +
                      length (concat (map (\<lambda>k. asked (rows df ! k)) [a..<i])))
                     (rows df ! i)
              else rows df ! i))"
proof (induction "n - a" arbitrary: a df w)
  case 0
  then have "[a..<n] = []" by simp
  then show ?case using "0.prems"(1) "0.hyps"
    by (auto simp: derived_only_refl only_artifacts_refl)
next
  case (Suc m)
  then have lt: "a < n" by simp
  then have u: "[a..<n] = a # [Suc a..<n]" by (simp add: upt_conv_Cons)
  have al: "a < length (rows df)" using lt Suc.prems(2) by simp
  have ta: "text_or_missing (row_get (rows df ! a) ''Question'' (Str []))"
    using Suc.prems(6) al by simp
  obtain df1 w1 where p: "process_row e product version a df w = (None, df1, w1)"
    and d1: "derived_only df df1" and a1: "only_artifacts w w1"
    and c1: "calls w1 = calls w @ map (\<lambda>q. (q, product, version)) (asked (rows df ! a))"
    and r1: "\<forall>j < length (rows df).
              rows df1 ! j =
                (if j = a then filled_row e product version (length (calls w)) (rows df ! a)
                 else rows df ! j)"
    using process_row_step [OF al Suc.prems(3,4,5) ta h o, of product version w] by blast
  have len: "length (rows df1) = length (rows df)" using d1 by (simp add: derived_only_def)
  have m: "m = n - Suc a" using Suc.hyps(2) by simp
  have i1: "integer_labels df1"
    using Suc.prems(3) d1 by (simp add: integer_labels_def derived_only_def)
  have t1: "dtypes df1 ''Extracted Text'' = TextDtype" "dtypes df1 ''Extracted URL'' = TextDtype"
    using Suc.prems(4,5) d1 by (simp_all add: derived_only_def)
  have q1: "\<forall>i < length (rows df1). text_or_missing (row_get (rows df1 ! i) ''Question'' (Str []))"
    using Suc.prems(6) d1 len derived_only_question [OF d1] by (simp add: row_get_def)
  obtain df' w' where
      ps: "process_rows e product version [Suc a..<n] df1 w1 = (None, df', w')"
    and d2: "derived_only df1 df'" and a2: "only_artifacts w1 w'"
    and c2: "calls w' = calls w1 @ map (\<lambda>q. (q, product, version))
                               (concat (map (\<lambda>k. asked (rows df1 ! k)) [Suc a..<n]))"
    and r2: "\<forall>i < length (rows df1).
           rows df' ! i =
             (if Suc a \<le> i \<and> i < n
              then filled_row e product version
                     (length (calls w1) +
                      length (concat (map (\<lambda>k. asked (rows df1 ! k)) [Suc a..<i])))
                     (rows df1 ! i)
              else rows df1 ! i)"
    using Suc.hyps(1) [OF m _ _ i1 t1 q1, of w1] lt Suc.prems(2) len by auto
  have same: "\<And>c. c \<le> length (rows df) \<Longrightarrow>
                map (\<lambda>k. asked (rows df1 ! k)) [Suc a..<c] =
                map (\<lambda>k. asked (rows df ! k)) [Suc a..<c]"
    using r1 by simp
  have pr: "process_rows e product version [a..<n] df w = (None, df', w')"
    using u p ps by simp
  have dd: "derived_only df df'" using d1 d2 derived_only_trans by blast
  have aa: "only_artifacts w w'" using a1 a2 only_artifacts_trans by blast
  have cc: "calls w' = calls w @ map (\<lambda>q. (q, product, version))
                               (concat (map (\<lambda>k. asked (rows df ! k)) [a..<n]))"
    using c1 c2 u same [OF Suc.prems(2)] by simp
  have rr: "\<forall>i < length (rows df).
           rows df' ! i =
             (if a \<le> i \<and> i < n
              then filled_row e product version
                     (length (calls w) +
                      length (concat (map (\<lambda>k. asked (rows df ! k)) [a..<i])))
                     (rows df ! i)
              else rows df ! i)"
  proof (intro allI impI)
    fix i
    assume il: "i < length (rows df)"
    show "rows df' ! i =
             (if a \<le> i \<and> i < n
              then filled_row e product version
                     (length (calls w) +
                      length (concat (map (\<lambda>k. asked (rows df ! k)) [a..<i])))
                     (rows df ! i)
              else rows df ! i)"
    proof (cases "Suc a \<le> i \<and> i < n")
      case True
      then have ui: "[a..<i] = a # [Suc a..<i]" by (simp add: upt_conv_Cons)
      have "i \<le> length (rows df)" using il by simp
      note s = same [OF this]
      have s': "concat (map (\<lambda>k. asked (rows df1 ! k)) [Suc a..<i]) =
                concat (map (\<lambda>k. asked (rows df ! k)) [Suc a..<i])"
        by (simp only: s)
      have e1: "rows df1 ! i = rows df ! i" using r1 il True by simp
      have "rows df' ! i =
              filled_row e product version
                (length (calls w1) +
                 length (concat (map (\<lambda>k. asked (rows df1 ! k)) [Suc a..<i])))
                (rows df1 ! i)"
        using r2 il len True by simp
      also have "\<dots> =
              filled_row e product version
                (length (calls w) +
                 length (concat (map (\<lambda>k. asked (rows df ! k)) [a..<i])))
                (rows df ! i)"
        unfolding s' e1 ui c1 by (simp add: add.assoc)
      finally show ?thesis using True by simp
    next
      case False
      have "i < length (rows df1)" using il len by simp
      with r2 have "rows df' ! i =
             (if Suc a \<le> i \<and> i < n
              then filled_row e product version
                     (length (calls w1) +
                      length (concat (map (\<lambda>k. asked (rows df1 ! k)) [Suc a..<i])))
                     (rows df1 ! i)
              else rows df1 ! i)" by blast
      then have e2: "rows df' ! i = rows df1 ! i" using False by (simp only: if_False)
      show ?thesis
      proof (cases "i = a")
        case True
        then show ?thesis using e2 r1 il lt by simp
      next
        case ne: False
        then have out: "\<not> (a \<le> i \<and> i < n)" using False by auto
        have "rows df1 ! i = rows df ! i" using r1 il ne by simp
        then have "rows df' ! i = rows df ! i" using e2 by simp
        then show ?thesis using out by (simp only: if_False)
      qed
    qed
  qed
  show ?case using pr dd aa cc rr by blast
qed

lemma accepted_load_table:
  assumes "accepted e filename bytes df"
  shows "load_table e (py_lower (splitext_ext filename)) (input_filepath filename)
           (w\<lparr>files := (files w)(input_filepath filename \<mapsto> Raw bytes)\<rparr>) = Some (Inr df)"
  using assms by (auto simp: accepted_def load_table_def pd_read_def)


lemma process_file_accepted:
  assumes "accepted e filename bytes df"
    and "process_rows e product version [0..<length (rows df)] (prepare_columns df)
           (w\<lparr>files := (files w)(input_filepath filename \<mapsto> Raw bytes)\<rparr>) = (x, df2, w2)"
  shows "process_file e filename bytes product version w =
           (case x of
              Some ex \<Rightarrow> (ErrorJson (str_of_exn ex), w2)
            | None \<Rightarrow>
                (let ext = py_lower (splitext_ext filename);
                     output_filename = ''processed_'' @ strftime_compact (now e (ticks w2)) @ ext;
                     output_filepath = ''output/'' @ output_filename
                 in case open_error e output_filepath of
                      Some m \<Rightarrow> (ErrorJson m, w2\<lparr>ticks := Suc (ticks w2)\<rparr>)
                    | None \<Rightarrow>
                        (FileResponse output_filepath output_filename,
                         w2\<lparr>ticks := Suc (ticks w2),
                            files := (files w2)(output_filepath \<mapsto> Sheet ext df2)\<rparr>)))"
proof -
  have o: "open_error e (input_filepath filename) = None"
    and q: "''Question'' \<in> set (columns df)"
    using assms(1) by (simp_all add: accepted_def)
  note l = accepted_load_table [OF assms(1), of w]
  show ?thesis
    using o q l assms(2)
    by (cases x) (simp_all add: process_file_def write_file_def read_clock_def Let_def
        split: option.splits)
qed

lemma prepared_question:
  "''Question'' \<in> set (columns df) \<Longrightarrow> i < length (rows df) \<Longrightarrow>
   row_get (rows (prepare_columns df) ! i) ''Question'' c = row_get (rows df ! i) ''Question'' c"
  by (simp add: row_get_def nth_rows_prepare_columns)

lemma prepared_asked:
  "''Question'' \<in> set (columns df) \<Longrightarrow> i < length (rows df) \<Longrightarrow>
   asked (rows (prepare_columns df) ! i) = asked (rows df ! i)"
  by (simp add: asked_def prepared_question)

lemma batch_completes:
  assumes "accepted e filename bytes df"
    and "\<forall>path. open_error e path = None"
    and "\<forall>r \<in> set (rows df). text_or_missing (row_get r ''Question'' (Str []))"
    and "\<forall>n p. harmless_reply e (api e n p)"
    and "integer_labels df"
    and "text_derived df"
  shows "\<exists>path name w' ext df'.
           process_file e filename bytes product version w = (FileResponse path name, w') \<and>
           files w' path = Some (Sheet ext df') \<and>
           length (rows df') = length (rows df) \<and>
           (\<forall>i < length (rows df).
              rows df' ! i = expected_row e product version (length (calls w)) df i) \<and>
           calls w' = calls w @ map (\<lambda>q. (q, product, version)) (concat (map asked (rows df)))"
proof -
  let ?w1 = "w\<lparr>files := (files w)(input_filepath filename \<mapsto> Raw bytes)\<rparr>"
  let ?n = "length (rows df)"
  let ?p = "prepare_columns df"
  have q: "''Question'' \<in> set (columns df)" using assms(1) by (simp add: accepted_def)
  have il: "integer_labels ?p" using assms(5) by (simp add: integer_labels_def)
  have tq: "\<forall>i < length (rows ?p). text_or_missing (row_get (rows ?p ! i) ''Question'' (Str []))"
    using assms(3) prepared_question [OF q] by simp
  obtain df2 w2 where
    pr: "process_rows e product version [0..<?n] ?p ?w1 = (None, df2, w2)"
    and d: "derived_only ?p df2"
    and c: "calls w2 = calls ?w1 @ map (\<lambda>q. (q, product, version))
                               (concat (map (\<lambda>k. asked (rows ?p ! k)) [0..<?n]))"
    and r: "\<forall>i < length (rows ?p).
           rows df2 ! i =
             (if 0 \<le> i \<and> i < ?n
              then filled_row e product version
                     (length (calls ?w1) +
                      length (concat (map (\<lambda>k. asked (rows ?p ! k)) [0..<i])))
                     (rows ?p ! i)
              else rows ?p ! i)"
    using process_rows_harmless [OF assms(4) assms(2) _ _ il
        dtypes_prepare_columns [OF assms(6)] tq, of 0 ?n product version ?w1]
    by auto
  have pa: "\<And>c. c \<le> ?n \<Longrightarrow> map (\<lambda>k. asked (rows ?p ! k)) [0..<c] = map asked (take c (rows df))"
  proof -
    fix c
    assume c: "c \<le> ?n"
    have "map (\<lambda>k. asked (rows ?p ! k)) [0..<c] = map (\<lambda>k. asked (rows df ! k)) [0..<c]"
      using q c by (auto intro!: prepared_asked)
    then show "map (\<lambda>k. asked (rows ?p ! k)) [0..<c] = map asked (take c (rows df))"
      using c by (simp add: map_asked_take)
  qed
  have cc: "calls w2 = calls w @ map (\<lambda>q. (q, product, version)) (concat (map asked (rows df)))"
    using c pa [of ?n] by simp
  have l: "length (rows df2) = ?n" using d by (simp add: derived_only_def)
  have rr: "\<forall>i < ?n. rows df2 ! i = expected_row e product version (length (calls w)) df i"
    using r pa by (simp add: expected_row_def)
  show ?thesis
    using process_file_accepted [OF assms(1) pr] assms(2) cc l rr by (simp add: Let_def)
qed

text \<open>
  C10. When an accepted spreadsheet has a row whose Question cell holds a non-missing value
  that is not a text, the request ends with a JSON error, and every spreadsheet file present
  afterwards was present, with the same content, before: no output spreadsheet is written.
  Only questions of rows before that row have been sent; the rows after it are not processed.
\<close>

theorem non_text_question_fails_request:
  assumes "accepted e filename bytes df" and "i < length (rows df)"
    and "row_get (rows df ! i) ''Question'' (Str []) = NonText ty"
  shows "\<exists>m w'. process_file e filename bytes product version w = (ErrorJson m, w') \<and>
           (\<forall>path ext d. files w' path = Some (Sheet ext d) \<longrightarrow>
                         files w path = Some (Sheet ext d)) \<and>
           (\<exists>j \<le> i. calls w' = calls w @ map (\<lambda>q. (q, product, version))
                                               (concat (map asked (take j (rows df)))))"
proof -
  let ?w1 = "w\<lparr>files := (files w)(input_filepath filename \<mapsto> Raw bytes)\<rparr>"
  obtain x df2 w2 where
    pr: "process_rows e product version [0..<length (rows df)] (prepare_columns df) ?w1 = (x, df2, w2)"
    by (cases "process_rows e product version [0..<length (rows df)] (prepare_columns df) ?w1") auto
  have q: "''Question'' \<in> set (columns df)" using assms(1) by (simp add: accepted_def)
  have n: "row_get (rows (prepare_columns df) ! i) ''Question'' (Str []) = NonText ty"
    using prepared_question [OF q assms(2)] assms(3) by simp
  moreover have "i \<in> set [0..<length (rows df)]" using assms(2) by simp
  moreover have b: "\<forall>k \<in> set [0..<length (rows df)]. k < length (rows (prepare_columns df))"
    by simp
  ultimately obtain ex where "x = Some ex"
    using process_rows_non_text [of i "[0..<length (rows df)]" "prepare_columns df" ty
        e product version ?w1] pr by auto
  then have pf: "process_file e filename bytes product version w = (ErrorJson (str_of_exn ex), w2)"
    using process_file_accepted [OF assms(1) pr] by simp
  have f: "\<forall>path. files w2 path = files ?w1 path \<or>
             (\<exists>j. files w2 path = Some (JsonText j) \<and> prefix ''messages/'' path)"
    using process_rows_result [OF b pr] by (simp add: only_artifacts_def)
  have "\<forall>path ext d. files w2 path = Some (Sheet ext d) \<longrightarrow> files w path = Some (Sheet ext d)"
  proof (intro allI impI)
    fix path ext d
    assume s: "files w2 path = Some (Sheet ext d)"
    then have "files ?w1 path = Some (Sheet ext d)" using f by (metis content.distinct(5) option.inject)
    then show "files w path = Some (Sheet ext d)" by (auto split: if_splits)
  qed
  moreover have "\<exists>j \<le> i. calls w2 = calls w @ map (\<lambda>q. (q, product, version))
                                               (concat (map asked (take j (rows df))))"
  proof -
    obtain j where j: "j \<le> i"
      and c: "calls w2 = calls ?w1 @ map (\<lambda>q. (q, product, version))
                 (concat (map (\<lambda>k. asked (rows (prepare_columns df) ! k)) [0..<j]))"
      using process_rows_sent_before [OF n _ assms(2) _ pr] by auto
    have "map (\<lambda>k. asked (rows (prepare_columns df) ! k)) [0..<j] =
          map (\<lambda>k. asked (rows df ! k)) [0..<j]"
      using q j assms(2) by (auto intro!: asked_cong simp: nth_rows_prepare_columns)
    also have "\<dots> = map asked (take j (rows df))"
      using j assms(2) by (simp add: map_asked_take)
    finally show ?thesis using c j by auto
  qed
  ultimately show ?thesis using pf by blast
qed



section \<open>Properties of the request handler\<close>

lemma process_file_working_copy:
  assumes "open_error e (input_filepath filename) = None"
    and "process_file e filename bytes product version w = (r, w')"
  shows "files w' (''output/'' @ filename) = Some (Raw bytes) \<or>
         (\<exists>ext d. files w' (''output/'' @ filename) = Some (Sheet ext d))"
proof -
  let ?p = "''output/'' @ filename"
  let ?w1 = "w\<lparr>files := (files w)(?p \<mapsto> Raw bytes)\<rparr>"
  let ?ext = "py_lower (splitext_ext filename)"
  have o: "open_error e ?p = None" using assms(1) by (simp add: input_filepath_def)
  show ?thesis
  proof (cases "load_table e ?ext ?p ?w1")
    case None
    then show ?thesis using assms(2) o
      by (auto simp: process_file_def write_file_def input_filepath_def)
  next
    case (Some l)
    show ?thesis
    proof (cases l)
      case (Inl x)
      then show ?thesis using assms(2) o Some
        by (auto simp: process_file_def write_file_def input_filepath_def)
    next
      case (Inr df)
      show ?thesis
      proof (cases "''Question'' \<in> set (columns df)")
        case False
        then show ?thesis using assms(2) o Some Inr
          by (auto simp: process_file_def write_file_def input_filepath_def)
      next
        case True
        obtain x df2 w2 where pr: "process_rows e product version
            [0..<length (rows (prepare_columns df))] (prepare_columns df) ?w1 = (x, df2, w2)"
          by (cases "process_rows e product version
            [0..<length (rows (prepare_columns df))] (prepare_columns df) ?w1") auto
        have "\<forall>k \<in> set [0..<length (rows (prepare_columns df))].
                k < length (rows (prepare_columns df))"
          by simp
        then have "only_artifacts ?w1 w2" using process_rows_result [OF _ pr] by blast
        then have "files w2 ?p = files ?w1 ?p \<or>
              (\<exists>j. files w2 ?p = Some (JsonText j) \<and> prefix ''messages/'' ?p)"
          unfolding only_artifacts_def by blast
        then have f: "files w2 ?p = Some (Raw bytes)" by simp
        show ?thesis
          using assms(2) o Some Inr True pr f
          by (cases x)
            (auto simp: process_file_def write_file_def input_filepath_def read_clock_def Let_def
              split: option.splits if_splits)
      qed
    qed
  qed
qed

lemma csv_ext: "py_lower (splitext_ext ''q.csv'') = ''.csv''"
  by code_simp


lemma xlsx_ext: "py_lower (splitext_ext ''Q.XLSX'') = ''.xlsx''"
  by code_simp

lemma numeric_accepted: "accepted numeric_service ''Q.XLSX'' bytes numeric_table"
  using xlsx_ext by (simp add: accepted_def numeric_service_def failing_service_def numeric_table_def)



lemma sample_text: "\<forall>r \<in> set (rows sample_table). text_or_missing (row_get r ''Question'' (Str []))"
  by (simp add: sample_table_def text_or_missing_def row_get_def)

lemma sample_integer_labels: "integer_labels sample_table"
  by code_simp

lemma sample_text_derived: "text_derived sample_table"
  by (simp add: text_derived_def sample_table_def)

lemma mixed_accepted: "accepted mixed_service ''q.csv'' bytes sample_table"
  using csv_ext by (simp add: accepted_def mixed_service_def failing_service_def sample_table_def)

lemma mixed_harmless: "\<forall>n p. harmless_reply mixed_service (api mixed_service n p)"
  by (simp add: harmless_reply_def mixed_service_def failing_service_def py_get_def)

lemma mixed_opens: "\<forall>path. open_error mixed_service path = None"
  by (simp add: mixed_service_def failing_service_def)

lemma sample_asked: "concat (map asked (rows sample_table)) = [''What is X?'', ''How to Y?'']"
proof -
  have "py_strip ''What is X?'' \<noteq> []" "py_strip '' '' = []" "py_strip ''How to Y?'' \<noteq> []"
    by code_simp+
  then show ?thesis by (simp add: sample_table_def asked_def row_get_def)
qed

text \<open>
  A row whose POST gets no response is recorded with its own sentinel and the loop goes on.
\<close>

lemma transport_failure_row:
  assumes "index < length (rows df)"
    and "row_get (rows df ! index) ''Question'' (Str []) = Str q" and "py_strip q \<noteq> []"
    and "api e (length (calls w)) (q, product, version) = TransportFailure m"
    and "labels df index = IntLabel k"
    and "dtypes df ''Extracted Text'' = TextDtype" and "dtypes df ''Extracted URL'' = TextDtype"
  shows "\<exists>df' w'. process_row e product version index df w = (None, df', w') \<and>
     (rows df' ! index) ''Extracted Text'' = Some (Str ''Error: API request failed'') \<and>
     (rows df' ! index) ''Extracted URL'' = Some (Str ''No URL found'') \<and>
     files w' = files w \<and> calls w' = calls w @ [(q, product, version)]"
proof -
  obtain df2 where
    s: "set_derived (labels df index) ''Error: API request failed'' ''No URL found'' df = Inr df2"
    using set_derived_text [OF assms(6,7)] by blast
  have p: "process_row e product version index df w =
             (None, df2, w\<lparr>calls := calls w @ [(q, product, version)]\<rparr>)"
    using assms(2-5) s
    by (simp add: process_row_def index_plus_one_def try_row_def requests_post_def)
  show ?thesis using p set_derived_Inr [OF s] assms(1) by simp
qed

text \<open>
  C1, as the claim states it, fails: a reply with status 200 whose message is not a text
  raises an exception that the inner handler does not catch. The request ends with a JSON
  error after the first row; the third row is never sent and no spreadsheet is returned.
\<close>

theorem odd_reply_aborts_counterexample:
  "fst (process_file odd_service ''q.csv'' ''bytes'' ''prod'' ''1.0'' empty_world) =
     ErrorJson ([CHR 0x27] @ ''NoneType'' @ [CHR 0x27] @ '' object has no attribute '' @
                [CHR 0x27] @ ''split'' @ [CHR 0x27]) \<and>
   calls (snd (process_file odd_service ''q.csv'' ''bytes'' ''prod'' ''1.0'' empty_world)) =
     [(''What is X?'', ''prod'', ''1.0'')] \<and>
   concat (map asked (rows sample_table)) = [''What is X?'', ''How to Y?'']"
  by code_simp

text \<open>
  C1, amended. For an accepted spreadsheet whose index is of distinct numeric labels (as an
  ordinary read leaves it) and whose derived columns, if it has them, hold texts, when
  every file can be opened for writing, every Question cell is a text or missing, and
  every reply is a transport failure, a status other than 200, or a status 200 with a JSON
  object whose message is absent or a text, the handler returns the output file. The
  spreadsheet written has as many rows as the input; each of its rows is the prepared row
  with the two derived cells filled as the contract of the row processor says for the reply
  to its question, a failed call leaving its sentinels and touching no other row; and
  every non-blank question has been sent, in order.
\<close>

theorem batch_survives_failed_calls:
  assumes "accepted e filename bytes df"
    and "\<forall>path. open_error e path = None"
    and "\<forall>r \<in> set (rows df). text_or_missing (row_get r ''Question'' (Str []))"
    and "\<forall>n p. harmless_reply e (api e n p)"
    and "integer_labels df"
    and "text_derived df"
  shows "\<exists>path name w' ext df'.
           process_file e filename bytes product version w = (FileResponse path name, w') \<and>
           files w' path = Some (Sheet ext df') \<and>
           length (rows df') = length (rows df) \<and>
           (\<forall>i < length (rows df).
              rows df' ! i = expected_row e product version (length (calls w)) df i) \<and>
           calls w' = calls w @ map (\<lambda>q. (q, product, version)) (concat (map asked (rows df)))"
  using assms by (rule batch_completes)

theorem batch_survives_failed_calls_witness:
  "api mixed_service 0 (''What is X?'', ''prod'', ''1.0'') =
     Http 500 (NotJson ''Internal Server Error'') \<and>
   (\<exists>path name w' ext df'.
      process_file mixed_service ''q.csv'' ''bytes'' ''prod'' ''1.0'' empty_world =
        (FileResponse path name, w') \<and>
      files w' path = Some (Sheet ext df') \<and>
      length (rows df') = 3 \<and>
      (rows df' ! 0) ''Extracted Text'' = Some (Str ''Error: Failed to get response from API'') \<and>
      (rows df' ! 0) ''Extracted URL'' = Some (Str ''No URL found'') \<and>
      (rows df' ! 1) ''Extracted Text'' = Some (Str []) \<and>
      (rows df' ! 2) ''Extracted Text'' = Some (Str good_message) \<and>
      (rows df' ! 2) ''Extracted URL'' = Some (Str ''http://z.com'') \<and>
      calls w' = [(''What is X?'', ''prod'', ''1.0''), (''How to Y?'', ''prod'', ''1.0'')])"
proof -
  have a: "api mixed_service 0 (''What is X?'', ''prod'', ''1.0'') =
             Http 500 (NotJson ''Internal Server Error'')"
    by (simp add: mixed_service_def failing_service_def)
  have l: "length (rows sample_table) = 3" by (simp add: sample_table_def)
  have c0: "calls empty_world = []" by (simp add: empty_world_def)
  obtain path name w' ext df' where
    p: "process_file mixed_service ''q.csv'' ''bytes'' ''prod'' ''1.0'' empty_world =
          (FileResponse path name, w')"
    and f: "files w' path = Some (Sheet ext df')"
    and n: "length (rows df') = length (rows sample_table)"
    and r: "\<forall>i < length (rows sample_table).
              rows df' ! i =
                expected_row mixed_service ''prod'' ''1.0'' (length (calls empty_world))
                  sample_table i"
    and c: "calls w' = calls empty_world @
              map (\<lambda>q. (q, ''prod'', ''1.0'')) (concat (map asked (rows sample_table)))"
    using batch_survives_failed_calls [OF mixed_accepted mixed_opens sample_text
        mixed_harmless sample_integer_labels sample_text_derived,
        of "''bytes''" "''prod''" "''1.0''" empty_world]
    by blast
  have r0: "rows df' ! 0 = expected_row mixed_service ''prod'' ''1.0'' 0 sample_table 0"
    and r1: "rows df' ! 1 = expected_row mixed_service ''prod'' ''1.0'' 0 sample_table 1"
    and r2: "rows df' ! 2 = expected_row mixed_service ''prod'' ''1.0'' 0 sample_table 2"
    using r l c0 by simp_all
  have e0: "expected_row mixed_service ''prod'' ''1.0'' 0 sample_table 0 ''Extracted Text'' =
              Some (Str ''Error: Failed to get response from API'')"
    by code_simp
  have e1: "expected_row mixed_service ''prod'' ''1.0'' 0 sample_table 0 ''Extracted URL'' =
              Some (Str ''No URL found'')"
    by code_simp
  have e2: "expected_row mixed_service ''prod'' ''1.0'' 0 sample_table 1 ''Extracted Text'' =
              Some (Str [])"
    by code_simp
  have e3: "expected_row mixed_service ''prod'' ''1.0'' 0 sample_table 2 ''Extracted Text'' =
              Some (Str good_message)"
    by code_simp
  have e4: "expected_row mixed_service ''prod'' ''1.0'' 0 sample_table 2 ''Extracted URL'' =
              Some (Str ''http://z.com'')"
    by code_simp
  have cc: "calls w' = [(''What is X?'', ''prod'', ''1.0''), (''How to Y?'', ''prod'', ''1.0'')]"
    using c c0 by (simp add: sample_asked)
  have "length (rows df') = 3" using n l by simp
  then show ?thesis
    using a p f cc e0 e1 e2 e3 e4 unfolding r0 [symmetric] r1 [symmetric] r2 [symmetric]
    by blast
qed

text \<open>
  C3, as the claim states it, fails: the upload is stored before its extension is looked at,
  so after the request for a file with extension \<^verbatim>\<open>.txt\<close> the working copy exists.
\<close>

theorem unsupported_upload_stored_counterexample:
  "py_lower (splitext_ext ''notes.txt'') = ''.txt'' \<and>
   raw_bytes_at empty_world ''output/notes.txt'' = None \<and>
   raw_bytes_at
     (snd (process_file failing_service ''notes.txt'' ''hello'' ''prod'' ''1.0'' empty_world))
     ''output/notes.txt'' = Some ''hello''"
  by code_simp

text \<open>
  C3, amended. For an upload whose extension is neither \<^verbatim>\<open>.xlsx\<close> nor \<^verbatim>\<open>.csv\<close>, and
  whose working copy can be opened for writing, the handler returns the error
  \<^verbatim>\<open>Unsupported file format. Upload Excel or CSV files.\<close>; the working copy of the upload
  is the one file it writes: no output spreadsheet, no artifact, no POST.
\<close>

theorem unsupported_extension:
  assumes "py_lower (splitext_ext filename) \<noteq> ''.xlsx''"
    and "py_lower (splitext_ext filename) \<noteq> ''.csv''"
    and "open_error e (input_filepath filename) = None"
  shows "process_file e filename bytes product version w =
           (ErrorJson ''Unsupported file format. Upload Excel or CSV files.'',
            w\<lparr>files := (files w)(input_filepath filename \<mapsto> Raw bytes)\<rparr>)"
  using assms by (simp add: process_file_def write_file_def load_table_def)

theorem unsupported_extension_witness:
  "process_file failing_service ''notes.txt'' ''hello'' ''prod'' ''1.0'' empty_world =
     (ErrorJson ''Unsupported file format. Upload Excel or CSV files.'',
      empty_world\<lparr>files := (files empty_world)(input_filepath ''notes.txt'' \<mapsto> Raw ''hello'')\<rparr>)"
proof -
  have x: "py_lower (splitext_ext ''notes.txt'') = ''.txt''" by code_simp
  have h1: "py_lower (splitext_ext ''notes.txt'') \<noteq> ''.xlsx''" by (simp add: x)
  have h2: "py_lower (splitext_ext ''notes.txt'') \<noteq> ''.csv''" by (simp add: x)
  have h3: "open_error failing_service (input_filepath ''notes.txt'') = None"
    by (simp add: failing_service_def)
  show ?thesis using unsupported_extension [OF h1 h2 h3] .
qed

text \<open>
  C4, as the claim states it, fails: two requests made at different times with different
  bytes under the same file name write the same working file, the second over the first.
\<close>

theorem same_name_same_working_file_counterexample:
  "raw_bytes_at
     (snd (process_file failing_service ''q.csv'' ''first upload'' ''prod'' ''1.0'' empty_world))
     ''output/q.csv'' = Some ''first upload'' \<and>
   raw_bytes_at
     (snd (process_file later_service ''q.csv'' ''second upload'' ''prod'' ''1.0''
        (snd (process_file failing_service ''q.csv'' ''first upload'' ''prod'' ''1.0''
                empty_world))))
     ''output/q.csv'' = Some ''second upload''"
  by code_simp

text \<open>
  C4, amended. The working file of an upload is named by the prefix \<^verbatim>\<open>output/\<close> and the
  file name the client sent, with no timestamp and no sanitised content. When it can be
  opened for writing, the file at that path holds the uploaded bytes after the request,
  unless the output spreadsheet of the same request was written to that very path.
\<close>

theorem working_file_named_by_upload:
  assumes "open_error e (input_filepath filename) = None"
    and "process_file e filename bytes product version w = (r, w')"
  shows "input_filepath filename = ''output/'' @ filename \<and>
         (files w' (''output/'' @ filename) = Some (Raw bytes) \<or>
          (\<exists>ext d. files w' (''output/'' @ filename) = Some (Sheet ext d)))"
  using process_file_working_copy [OF assms] by (simp add: input_filepath_def)

theorem working_file_named_by_upload_witness:
  "input_filepath ''q.csv'' = ''output/'' @ ''q.csv'' \<and>
   (files (snd (process_file later_service ''q.csv'' ''second upload'' ''prod'' ''1.0''
                  empty_world)) (''output/'' @ ''q.csv'') = Some (Raw ''second upload'') \<or>
    (\<exists>ext d. files (snd (process_file later_service ''q.csv'' ''second upload'' ''prod'' ''1.0''
                  empty_world)) (''output/'' @ ''q.csv'') = Some (Sheet ext d)))"
proof -
  have h1: "open_error later_service (input_filepath ''q.csv'') = None"
    by (simp add: later_service_def failing_service_def)
  have h2: "process_file later_service ''q.csv'' ''second upload'' ''prod'' ''1.0'' empty_world =
              (fst (process_file later_service ''q.csv'' ''second upload'' ''prod'' ''1.0''
                      empty_world),
               snd (process_file later_service ''q.csv'' ''second upload'' ''prod'' ''1.0''
                      empty_world))"
    by simp
  show ?thesis using working_file_named_by_upload [OF h1 h2] .
qed

section \<open>Instances of the batch properties\<close>

theorem non_text_question_fails_request_witness:
  "accepted numeric_service ''Q.XLSX'' ''bytes'' numeric_table \<and>
   row_get (rows numeric_table ! 1) ''Question'' (Str []) = NonText ''int'' \<and>
   (\<exists>m w'. process_file numeric_service ''Q.XLSX'' ''bytes'' ''prod'' ''1.0'' empty_world =
              (ErrorJson m, w') \<and>
            (\<forall>path ext d. files w' path = Some (Sheet ext d) \<longrightarrow>
                          files empty_world path = Some (Sheet ext d)) \<and>
            (\<exists>j \<le> 1. calls w' = calls empty_world @
                 map (\<lambda>q. (q, ''prod'', ''1.0'')) (concat (map asked (take j (rows numeric_table))))))"
proof -
  have h1: "accepted numeric_service ''Q.XLSX'' ''bytes'' numeric_table"
    by (rule numeric_accepted)
  have h2: "1 < length (rows numeric_table)" by (simp add: numeric_table_def)
  have h3: "row_get (rows numeric_table ! 1) ''Question'' (Str []) = NonText ''int''"
    by (simp add: numeric_table_def row_get_def)
  show ?thesis
    using h1 h3 non_text_question_fails_request [OF h1 h2 h3, of "''prod''" "''1.0''" empty_world]
    by blast
qed


end
